theory Spec2Isabelle
  imports Complex_Main "HOL-Library.AList"
begin

section \<open>Shared data model\<close>

text \<open>
  Go's \<open>error\<close> values are modelled by their message; a \<open>nil\<close> error is \<open>None\<close>.
\<close>

type_synonym error = string

text \<open>The capability descriptor, \<open>type Skill struct\<close>. \<open>LoadedAt\<close> is a clock reading.\<close>

record Skill =
  Name :: string
  Description :: string
  License :: string
  Compatibility :: string
  BasePath :: string
  ScriptsPath :: string
  SKILLPath :: string
  Instructions :: string
  LoadedAt :: nat

section \<open>Registry\<close>

text \<open>
  \<open>Registry.skills\<close> is a \<open>map[string]*Skill\<close>. The argument of \<open>Register\<close> is a
  pointer, so it may be \<open>nil\<close>: \<open>None\<close> here. The function returns the registry after the
  call together with the returned error.
\<close>

type_synonym Registry = "string \<rightharpoonup> Skill"

definition NewRegistry :: Registry where
  "NewRegistry = Map.empty"

definition Register :: "Registry \<Rightarrow> Skill option \<Rightarrow> Registry \<times> error option" where
  "Register r skill =
     (case skill of
        None \<Rightarrow> (r, Some ''cannot register nil skill'')
      | Some s \<Rightarrow>
          if Name s = '''' then (r, Some ''skill name cannot be empty'')
          else (r(Name s \<mapsto> s), None))"

definition Get :: "Registry \<Rightarrow> string \<Rightarrow> error + Skill" where
  "Get r name =
     (case r name of
        None \<Rightarrow> Inl (''skill not found: '' @ name)
      | Some s \<Rightarrow> Inr s)"

text \<open>A descriptor used in the concrete evaluations below.\<close>

definition kubekey :: Skill where
  "kubekey = \<lparr>Name = ''kubekey'', Description = ''Manage clusters'', License = ''Apache-2.0'',
     Compatibility = '''', BasePath = ''skills/kubekey'', ScriptsPath = ''skills/kubekey/scripts'',
     SKILLPath = ''skills/kubekey/SKILL.md'', Instructions = '''', LoadedAt = 0\<rparr>"

definition kubekey_v2 :: Skill where
  "kubekey_v2 = kubekey\<lparr>Description := ''Manage clusters, second edition''\<rparr>"

section \<open>Dynamic values and Go maps\<close>

text \<open>
  A value of type \<open>interface{}\<close> as it occurs in parameter maps. A \<open>map[string]interface{}\<close>
  is an association list whose keys are pairwise distinct; the order of the list is the
  order in which a \<open>range\<close> loop visits the entries, which Go leaves unspecified, so
  results are stated for every order. \<open>m[k] = v\<close> is \<open>AList.update k v m\<close> and a lookup is
  \<open>map_of m k\<close>.
\<close>

datatype go_value =
    VNil
  | VBool bool
  | VNumber int
  | VString string
  | VStrings "string list"
  | VList "go_value list"
  | VMap "(string \<times> go_value) list"

type_synonym go_map = "(string \<times> go_value) list"

type_synonym ExecutionParams = go_map

section \<open>Capability adapter\<close>

record Tool =
  ToolName :: string
  ToolDescription :: string
  InputSchema :: go_map

record ToolCallParams =
  CallName :: string
  Arguments :: go_map

definition generateToolSchema :: "Skill \<Rightarrow> go_map" where
  "generateToolSchema s =
     [(''type'', VString ''object''),
      (''properties'', VMap
         [(''action'', VMap
             [(''type'', VString ''string''),
              (''description'',
                 VString ''The action to perform (e.g., create_cluster, add_nodes, etc.)'')]),
          (''params'', VMap
             [(''type'', VString ''object''),
              (''description'', VString ''Additional parameters for the action''),
              (''properties'', VMap [])])]),
      (''required'', VStrings [''action''])]"

definition SkillToTool :: "Skill \<Rightarrow> error + Tool" where
  "SkillToTool s =
     Inr \<lparr>ToolName = Name s, ToolDescription = Description s,
          InputSchema = generateToolSchema s\<rparr>"

text \<open>The three steps of \<open>ToolCallToSkillParams\<close>, in the order of the source.\<close>

definition extract_action :: "go_map \<Rightarrow> ExecutionParams \<Rightarrow> ExecutionParams" where
  "extract_action args params =
     (case map_of args ''action'' of
        Some (VString action) \<Rightarrow> AList.update ''action'' (VString action) params
      | _ \<Rightarrow> params)"

definition extract_params_object :: "go_map \<Rightarrow> ExecutionParams \<Rightarrow> ExecutionParams" where
  "extract_params_object args params =
     (case map_of args ''params'' of
        Some (VMap paramsObj) \<Rightarrow> fold (\<lambda>(k, v) p. AList.update k v p) paramsObj params
      | _ \<Rightarrow> params)"

definition copy_other_arguments :: "go_map \<Rightarrow> ExecutionParams \<Rightarrow> ExecutionParams" where
  "copy_other_arguments args params =
     fold (\<lambda>(k, v) p. if k \<noteq> ''action'' \<and> k \<noteq> ''params'' then AList.update k v p else p)
       args params"

definition ToolCallToSkillParams :: "ToolCallParams \<Rightarrow> error + ExecutionParams" where
  "ToolCallToSkillParams toolCall =
     Inr (copy_other_arguments (Arguments toolCall)
            (extract_params_object (Arguments toolCall)
               (extract_action (Arguments toolCall) [])))"

section \<open>Direct process executor\<close>

record ExecutionResult =
  Success :: bool
  Output :: string
  Error :: string
  ExitCode :: int
  Duration :: nat
  Timestamp :: nat

text \<open>
  The executor talks to the operating system. Everything it asks of it is a field of
  \<open>os_env\<close>: \<open>os.Stat\<close>, \<open>os.ReadDir\<close>, \<open>os.Chmod\<close>, the process it starts, the clock, and
  the library functions \<open>filepath.Join\<close>, \<open>filepath.Dir\<close>, \<open>fmt.Sprintf("%v", _)\<close> on a
  dynamic value and on a \<open>time.Duration\<close>.
\<close>

datatype stat_result = StatOk | StatNotExist | StatError

record dir_entry =
  EntryName :: string
  IsDir :: bool

text \<open>
  What becomes of the started command: \<open>cmd.Start\<close> fails; the command ends and
  \<open>cmd.Wait\<close> reports its exit code (\<open>nil\<close> for code 0, an \<open>*exec.ExitError\<close> otherwise);
  \<open>cmd.Wait\<close> fails with another error; or the timer of \<open>time.After\<close> fires first.
\<close>

datatype proc_outcome =
    StartFailed error
  | Exited string string int
  | WaitFailed string string error
  | TimedOut

record os_env =
  Stat :: "string \<Rightarrow> stat_result"
  ReadDir :: "string \<Rightarrow> error + dir_entry list"
  Chmod :: "string \<Rightarrow> error option"
  Environ :: "string list"
  RunCommand :: "string list \<Rightarrow> string \<Rightarrow> string list \<Rightarrow> nat \<Rightarrow> proc_outcome"
  Join :: "string \<Rightarrow> string \<Rightarrow> string"
  Dir :: "string \<Rightarrow> string"
  Sprint :: "go_value \<Rightarrow> string"
  DurationString :: "nat \<Rightarrow> string"
  SinceStart :: nat
  Now :: nat

record ScriptRunner =
  timeout :: nat

record DirectExecutor =
  runner :: ScriptRunner

definition NewScriptRunner :: "nat \<Rightarrow> ScriptRunner" where
  "NewScriptRunner t = \<lparr>timeout = t\<rparr>"

definition NewDirectExecutor :: "nat \<Rightarrow> DirectExecutor" where
  "NewDirectExecutor t = \<lparr>runner = NewScriptRunner t\<rparr>"

text \<open>\<open>fmt.Sprintf("%d", n)\<close> for an \<open>int\<close>.\<close>

fun decimal :: "nat \<Rightarrow> string" where
  "decimal n =
     (if n < 10 then [char_of (48 + n)]
      else decimal (n div 10) @ [char_of (48 + n mod 10)])"

definition Sprint_d :: "int \<Rightarrow> string" where
  "Sprint_d i = (if i < 0 then CHR ''-'' # decimal (nat (- i)) else decimal (nat i))"

text \<open>
  \<open>filepath.Ext\<close>: the suffix that starts at the last dot of the last path element,
  empty when there is none.
\<close>

fun ext_scan :: "string \<Rightarrow> string \<Rightarrow> string" where
  "ext_scan [] acc = []"
| "ext_scan (c # cs) acc =
     (if c = CHR ''/'' then []
      else if c = CHR ''.'' then c # acc
      else ext_scan cs (c # acc))"

definition Ext :: "string \<Rightarrow> string" where
  "Ext path = ext_scan (rev path) []"

text \<open>
  \<open>ScriptRunner.Run\<close> returns standard output, standard error, the exit code and the
  error. The environment handed to the command is \<open>os.Environ()\<close> followed by one
  \<open>key=value\<close> line per entry of \<open>env\<close>.
\<close>

definition Run ::
  "os_env \<Rightarrow> ScriptRunner \<Rightarrow> string \<Rightarrow> string list \<Rightarrow> (string \<times> string) list
     \<Rightarrow> string \<times> string \<times> int \<times> error option" where
  "Run os r scriptPath args env =
     (if Stat os scriptPath = StatNotExist
      then ('''', '''', - 1, Some (''script not found: '' @ scriptPath))
      else case Chmod os scriptPath of
        Some e \<Rightarrow> ('''', '''', - 1, Some (''failed to make script executable: '' @ e))
      | None \<Rightarrow>
         (case RunCommand os (''bash'' # scriptPath # args) (Dir os scriptPath)
                 (Environ os @ map (\<lambda>(k, v). k @ ''='' @ v) env) (timeout r) of
            StartFailed e \<Rightarrow> ('''', '''', - 1, Some (''failed to start script: '' @ e))
          | Exited out err code \<Rightarrow> (out, err, code, None)
          | WaitFailed out err e \<Rightarrow> (out, err, - 1, Some (''script execution error: '' @ e))
          | TimedOut \<Rightarrow>
              ('''', '''', - 1,
               Some (''script execution timeout after '' @ DurationString os (timeout r)))))"

definition is_script :: "dir_entry \<Rightarrow> bool" where
  "is_script entry \<longleftrightarrow> \<not> IsDir entry \<and> Ext (EntryName entry) = ''.sh''"

definition findScript_default :: "os_env \<Rightarrow> Skill \<Rightarrow> error + string" where
  "findScript_default os s =
     (case ReadDir os (ScriptsPath s) of
        Inl e \<Rightarrow> Inl (''failed to read scripts directory: '' @ e)
      | Inr entries \<Rightarrow>
         (case find (\<lambda>entry. is_script entry \<and> EntryName entry = ''main.sh'') entries of
            Some entry \<Rightarrow> Inr (Join os (ScriptsPath s) (EntryName entry))
          | None \<Rightarrow>
             (case find is_script entries of
                Some entry \<Rightarrow> Inr (Join os (ScriptsPath s) (EntryName entry))
              | None \<Rightarrow> Inl (''no script found in '' @ ScriptsPath s))))"

definition findScript_action :: "os_env \<Rightarrow> Skill \<Rightarrow> ExecutionParams \<Rightarrow> error + string" where
  "findScript_action os s params =
     (case map_of params ''action'' of
        Some (VString action) \<Rightarrow>
          if Stat os (Join os (ScriptsPath s) (action @ ''.sh'')) = StatOk
          then Inr (Join os (ScriptsPath s) (action @ ''.sh''))
          else findScript_default os s
      | _ \<Rightarrow> findScript_default os s)"

definition findScript :: "os_env \<Rightarrow> Skill \<Rightarrow> ExecutionParams \<Rightarrow> error + string" where
  "findScript os s params =
     (case map_of params ''script'' of
        Some (VString scriptName) \<Rightarrow>
          if Stat os (Join os (ScriptsPath s) scriptName) = StatOk
          then Inr (Join os (ScriptsPath s) scriptName)
          else Inl (''script not found: '' @ Join os (ScriptsPath s) scriptName)
      | _ \<Rightarrow> findScript_action os s params)"

text \<open>
  One round of the loop of \<open>prepareExecution\<close> over the parameter map; the state is the
  pair of \<open>args\<close> and \<open>env\<close>.
\<close>

definition prepare_param ::
  "os_env \<Rightarrow> string \<times> go_value \<Rightarrow> string list \<times> (string \<times> string) list
     \<Rightarrow> string list \<times> (string \<times> string) list" where
  "prepare_param os kv st =
     (case kv of (key, value) \<Rightarrow> case st of (args, env) \<Rightarrow>
        if key = ''script'' \<or> key = ''action'' then (args, env)
        else
          let valueStr = Sprint os value;
              env' = AList.update (''SKILL_PARAM_'' @ key) valueStr env
          in if length valueStr > 0 \<and> valueStr ! 0 \<noteq> CHR ''-''
             then (args @ [''--'' @ key, valueStr], env')
             else (args, env'))"

definition prepareExecution ::
  "os_env \<Rightarrow> Skill \<Rightarrow> ExecutionParams \<Rightarrow> string list \<times> (string \<times> string) list" where
  "prepareExecution os s params =
     fold (prepare_param os) params
       ([], AList.update ''SKILL_SCRIPTS_PATH'' (ScriptsPath s)
              (AList.update ''SKILL_BASE_PATH'' (BasePath s)
                 (AList.update ''SKILL_NAME'' (Name s) [])))"

text \<open>
  \<open>DirectExecutor.Execute\<close> returns a result, which is never \<open>nil\<close>, and an error.
\<close>

definition Execute ::
  "os_env \<Rightarrow> DirectExecutor \<Rightarrow> Skill \<Rightarrow> ExecutionParams \<Rightarrow> ExecutionResult \<times> error option" where
  "Execute os e s params =
     (case findScript os s params of
        Inl err \<Rightarrow>
          (\<lparr>Success = False, Output = '''', Error = err, ExitCode = - 1,
            Duration = SinceStart os, Timestamp = Now os\<rparr>, Some err)
      | Inr scriptPath \<Rightarrow>
         (case prepareExecution os s params of (args, env) \<Rightarrow>
          case Run os (runner e) scriptPath args env of (stdout, stderr, exitCode, err) \<Rightarrow>
            let result = \<lparr>Success = (err = None \<and> exitCode = 0), Output = stdout,
                  Error = stderr, ExitCode = exitCode,
                  Duration = SinceStart os, Timestamp = Now os\<rparr>
            in case err of
                 Some m \<Rightarrow> (result\<lparr>Error := m @ '': '' @ stderr\<rparr>, Some m)
               | None \<Rightarrow>
                   if exitCode \<noteq> 0
                   then (result\<lparr>Error := stderr\<rparr>,
                         Some (''script exited with code '' @ Sprint_d exitCode @ '': '' @ stderr))
                   else (result, None)))"

text \<open>
  An operating system for the concrete evaluations: the scripts directory of \<open>kubekey\<close>
  holds \<open>create_cluster.sh\<close> and \<open>add_nodes.sh\<close>, and every command that is started ends
  the way \<open>outcome\<close> says. \<open>sprint_scalar\<close> is \<open>fmt.Sprintf("%v", _)\<close> on strings, booleans,
  integers and \<open>nil\<close>, the only values the evaluations format.
\<close>

definition sprint_scalar :: "go_value \<Rightarrow> string" where
  "sprint_scalar v =
     (case v of
        VString s \<Rightarrow> s
      | VBool b \<Rightarrow> (if b then ''true'' else ''false'')
      | VNumber n \<Rightarrow> Sprint_d n
      | _ \<Rightarrow> ''<nil>'')"

definition sample_os :: "proc_outcome \<Rightarrow> os_env" where
  "sample_os outcome =
     \<lparr>Stat = (\<lambda>p. if p = ''skills/kubekey/scripts/create_cluster.sh''
                      \<or> p = ''skills/kubekey/scripts/add_nodes.sh''
                   then StatOk else StatNotExist),
      ReadDir = (\<lambda>d. if d = ''skills/kubekey/scripts''
                      then Inr [\<lparr>EntryName = ''add_nodes.sh'', IsDir = False\<rparr>,
                                \<lparr>EntryName = ''create_cluster.sh'', IsDir = False\<rparr>]
                      else Inl (''open '' @ d @ '': no such file or directory'')),
      Chmod = (\<lambda>p. None),
      Environ = [''PATH=/usr/bin''],
      RunCommand = (\<lambda>argv dir env t. outcome),
      Join = (\<lambda>a b. a @ ''/'' @ b),
      Dir = (\<lambda>p. ''skills/kubekey/scripts''),
      Sprint = sprint_scalar,
      DurationString = (\<lambda>n. Sprint_d (int n) @ ''s''),
      SinceStart = 2,
      Now = 1000\<rparr>"

text \<open>
  The arguments that one round of the loop appends for one parameter, and the reading of
  "the string form begins with \<open>-\<close>" used in the statements about \<open>prepareExecution\<close>.
\<close>

definition arg_pair :: "os_env \<Rightarrow> string \<times> go_value \<Rightarrow> string list" where
  "arg_pair os kv =
     (if fst kv = ''script'' \<or> fst kv = ''action'' then []
      else if Sprint os (snd kv) \<noteq> [] \<and> Sprint os (snd kv) ! 0 \<noteq> CHR ''-''
      then [''--'' @ fst kv, Sprint os (snd kv)] else [])"

definition begins_with_dash :: "string \<Rightarrow> bool" where
  "begins_with_dash str \<longleftrightarrow> take 1 str = ''-''"

section \<open>Skill URIs\<close>

text \<open>
  \<open>isSkillURI\<close> and \<open>parseSkillURI\<close> of the KubeKey server. Strings are byte lists; the
  \<open>range\<close> loop of \<open>parseSkillURI\<close> visits runes, and the byte \<open>/\<close> occurs in UTF-8 only as
  the rune \<open>/\<close>, so the scan for the first \<open>/\<close> is a scan over bytes. \<open>find_slash\<close> is that
  loop: it returns the index it assigns to \<open>idx\<close>, and 0, the initial value of \<open>idx\<close>,
  when it assigns none. The slice \<open>uri[8:]\<close> panics on a shorter string: \<open>None\<close>.
\<close>

definition isSkillURI :: "string \<Rightarrow> bool" where
  "isSkillURI uri \<longleftrightarrow> length uri > 8 \<and> take 8 uri = ''skill://''"

fun find_slash :: "string \<Rightarrow> nat \<Rightarrow> nat" where
  "find_slash [] i = 0"
| "find_slash (c # cs) i = (if c = CHR ''/'' then i else find_slash cs (Suc i))"

definition parseSkillURI :: "string \<Rightarrow> (string \<times> string) option" where
  "parseSkillURI uri =
     (if length uri < 8 then None
      else
        let path = drop 8 uri;
            idx = find_slash path 0
        in if idx = 0 then Some (path, '''')
           else Some (take idx path, drop (idx + 1) path))"

text \<open>
  The first steps of \<open>handleResourcesRead\<close>: the URI is refused unless \<open>isSkillURI\<close> holds,
  and is parsed otherwise.
\<close>

definition handleResourcesRead_parse :: "string \<Rightarrow> error + (string \<times> string) option" where
  "handleResourcesRead_parse uri =
     (if \<not> isSkillURI uri then Inl (''invalid skill URI: '' @ uri)
      else Inr (parseSkillURI uri))"

section \<open>Execution router\<close>

type_synonym ExecutionMode = string

definition ExecutionModeDirect :: ExecutionMode where
  "ExecutionModeDirect = ''direct''"

definition ExecutionModeMCP :: ExecutionMode where
  "ExecutionModeMCP = ''mcp''"

definition ExecutionModeAuto :: ExecutionMode where
  "ExecutionModeAuto = ''auto''"

record SkillConfig =
  ConfigName :: string
  ExecutionMode :: ExecutionMode
  MCPServer :: string

record MCPServerConfig =
  Type :: string
  Command :: string
  Args :: "string list"
  URL :: string
  Env :: "(string \<times> string) list"

record Config =
  Skills :: "string \<rightharpoonup> SkillConfig"
  MCPServers :: "string \<rightharpoonup> MCPServerConfig"

definition GetSkillConfig :: "Config \<Rightarrow> string \<Rightarrow> SkillConfig option" where
  "GetSkillConfig c skillName = Skills c skillName"

record Content =
  ContentType :: string
  Text :: string
  Data :: go_value

record ToolCallResult =
  ResultContent :: "Content list"
  IsError :: bool

text \<open>
  The \<open>Executor\<close> interface: a call returns a result pointer, which may be \<open>nil\<close>, and an
  error. The router holds an interface value, which may itself be \<open>nil\<close>.
\<close>

type_synonym Executor = "Skill \<Rightarrow> ExecutionParams \<Rightarrow> ExecutionResult option \<times> error option"

text \<open>
  What lies behind the protocol bridge, as the router sees it: opening a connection to a
  configured server (\<open>NewStdioConnection\<close>, \<open>Start\<close>, \<open>Initialize\<close>) fails at one of its
  three steps or yields a client, and a tool call on a client fails or yields a
  result. \<open>'c\<close> is the type of client handles.
\<close>

datatype 'c connect_outcome =
    CreateFailed error
  | StartConnFailed error
  | InitializeFailed error
  | Connected 'c

record 'c mcp_world =
  Connect :: "string \<Rightarrow> string list \<Rightarrow> 'c connect_outcome"
  CallTool :: "'c \<Rightarrow> string \<Rightarrow> go_map \<Rightarrow> error + ToolCallResult"

record 'c Router =
  directExecutor :: "Executor option"
  mcpClients :: "string \<rightharpoonup> 'c"
  config :: "Config option"
  registry :: Registry

definition determineExecutionMode :: "'c Router \<Rightarrow> string \<Rightarrow> ExecutionMode" where
  "determineExecutionMode r skillName =
     (case config r of
        None \<Rightarrow> ExecutionModeDirect
      | Some c \<Rightarrow>
         (case GetSkillConfig c skillName of
            None \<Rightarrow> ExecutionModeDirect
          | Some skillConfig \<Rightarrow>
              if ExecutionMode skillConfig \<noteq> ExecutionModeAuto
              then ExecutionMode skillConfig
              else ExecutionModeDirect))"

definition executeDirect ::
  "'c Router \<Rightarrow> Skill \<Rightarrow> ExecutionParams \<Rightarrow> ExecutionResult option \<times> error option" where
  "executeDirect r skill params =
     (case directExecutor r of
        None \<Rightarrow> (None, Some ''direct executor not available'')
      | Some ex \<Rightarrow> ex skill params)"

text \<open>\<open>getMCPClient\<close> returns the client or an error, and the client cache after the call.\<close>

definition getMCPClient ::
  "'c mcp_world \<Rightarrow> 'c Router \<Rightarrow> string \<Rightarrow> (error + 'c) \<times> (string \<rightharpoonup> 'c)" where
  "getMCPClient w r serverName =
     (case mcpClients r serverName of
        Some client \<Rightarrow> (Inr client, mcpClients r)
      | None \<Rightarrow>
         (case config r of
            None \<Rightarrow> (Inl ''configuration not available'', mcpClients r)
          | Some c \<Rightarrow>
             (case MCPServers c serverName of
                None \<Rightarrow> (Inl (''MCP server not found: '' @ serverName), mcpClients r)
              | Some serverConfig \<Rightarrow>
                  if Type serverConfig \<noteq> ''stdio''
                  then (Inl (''unsupported MCP server type: '' @ Type serverConfig), mcpClients r)
                  else
                    (case Connect w (Command serverConfig) (Args serverConfig) of
                       CreateFailed e \<Rightarrow>
                         (Inl (''failed to create MCP connection: '' @ e), mcpClients r)
                     | StartConnFailed e \<Rightarrow>
                         (Inl (''failed to start MCP connection: '' @ e), mcpClients r)
                     | InitializeFailed e \<Rightarrow>
                         (Inl (''failed to initialize MCP connection: '' @ e), mcpClients r)
                     | Connected client \<Rightarrow>
                         (Inr client, (mcpClients r)(serverName \<mapsto> client))))))"

definition convertMCPResult :: "ToolCallResult \<Rightarrow> ExecutionResult" where
  "convertMCPResult result =
     fold (\<lambda>content execResult.
             if ContentType content = ''text''
             then if Success execResult
                  then execResult\<lparr>Output := Output execResult @ Text content @ [CHR 0x0A]\<rparr>
                  else execResult\<lparr>Error := Error execResult @ Text content @ [CHR 0x0A]\<rparr>
             else execResult)
       (ResultContent result)
       \<lparr>Success = \<not> IsError result, Output = '''', Error = '''', ExitCode = 0,
        Duration = 0, Timestamp = 0\<rparr>"

definition executeMCP ::
  "'c mcp_world \<Rightarrow> 'c Router \<Rightarrow> string \<Rightarrow> ExecutionParams
     \<Rightarrow> (ExecutionResult option \<times> error option) \<times> (string \<rightharpoonup> 'c)" where
  "executeMCP w r skillName params =
     (case config r of
        None \<Rightarrow> ((None, Some ''MCP execution requires configuration''), mcpClients r)
      | Some c \<Rightarrow>
         (case GetSkillConfig c skillName of
            None \<Rightarrow>
              ((None, Some (''MCP server not configured for skill: '' @ skillName)), mcpClients r)
          | Some skillConfig \<Rightarrow>
              if MCPServer skillConfig = ''''
              then ((None, Some (''MCP server not configured for skill: '' @ skillName)),
                    mcpClients r)
              else
                (case getMCPClient w r (MCPServer skillConfig) of
                   (Inl e, clients) \<Rightarrow>
                     ((None, Some (''failed to get MCP client: '' @ e)), clients)
                 | (Inr client, clients) \<Rightarrow>
                    (case CallTool w client skillName
                            (fold (\<lambda>(k, v) arguments. AList.update k v arguments) params []) of
                       Inl e \<Rightarrow> ((None, Some (''MCP tool call failed: '' @ e)), clients)
                     | Inr result \<Rightarrow> ((Some (convertMCPResult result), None), clients)))))"

text \<open>
  \<open>Router.Execute\<close>. The only state the call can change is the client cache, so the
  function returns the pair of result and error together with the cache after the call.
\<close>

definition Router_Execute ::
  "'c mcp_world \<Rightarrow> 'c Router \<Rightarrow> string \<Rightarrow> ExecutionParams
     \<Rightarrow> (ExecutionResult option \<times> error option) \<times> (string \<rightharpoonup> 'c)" where
  "Router_Execute w r skillName params =
     (case Get (registry r) skillName of
        Inl err \<Rightarrow> ((None, Some (''skill not found: '' @ skillName)), mcpClients r)
      | Inr skill \<Rightarrow>
          let mode = determineExecutionMode r skillName
          in if mode = ExecutionModeDirect then (executeDirect r skill params, mcpClients r)
             else if mode = ExecutionModeMCP then executeMCP w r skillName params
             else if mode = ExecutionModeAuto
             then (case executeDirect r skill params of
                     (result, None) \<Rightarrow> ((result, None), mcpClients r)
                   | (result, Some err) \<Rightarrow> executeMCP w r skillName params)
             else ((None, Some (''unknown execution mode: '' @ mode)), mcpClients r))"

text \<open>
  A \<open>*DirectExecutor\<close> as a value of the \<open>Executor\<close> interface, and a router, a
  configuration and a protocol world for the concrete evaluations: \<open>kubekey\<close> is configured
  as automatic with a server that would connect and answer every tool call.
\<close>

definition DirectExecutor_as_Executor :: "os_env \<Rightarrow> DirectExecutor \<Rightarrow> Executor" where
  "DirectExecutor_as_Executor os e =
     (\<lambda>s params. case Execute os e s params of (result, err) \<Rightarrow> (Some result, err))"

definition sample_config :: "ExecutionMode \<Rightarrow> Config" where
  "sample_config mode =
     \<lparr>Skills = [''kubekey'' \<mapsto>
         \<lparr>ConfigName = ''kubekey'', ExecutionMode = mode, MCPServer = ''kk''\<rparr>],
      MCPServers = [''kk'' \<mapsto>
         \<lparr>Type = ''stdio'', Command = ''kubekey-mcp'', Args = [], URL = '''', Env = []\<rparr>]\<rparr>"

definition sample_world :: "nat mcp_world" where
  "sample_world =
     \<lparr>Connect = (\<lambda>command args. Connected 7),
      CallTool = (\<lambda>client name arguments.
         Inr \<lparr>ResultContent = [\<lparr>ContentType = ''text'', Text = ''done'', Data = VNil\<rparr>],
              IsError = False\<rparr>)\<rparr>"

definition sample_router :: "proc_outcome \<Rightarrow> ExecutionMode \<Rightarrow> nat Router" where
  "sample_router outcome mode =
     \<lparr>directExecutor = Some (DirectExecutor_as_Executor (sample_os outcome) (NewDirectExecutor 30)),
      mcpClients = Map.empty,
      config = Some (sample_config mode),
      registry = [''kubekey'' \<mapsto> kubekey]\<rparr>"

section \<open>Wire codec\<close>

text \<open>
  The \<open>ID\<close> field of an envelope has type \<open>interface{}\<close>. \<open>ident\<close> is its dynamic value: nil,
  an \<open>int64\<close> (what \<open>Client.Call\<close> stores), a \<open>float64\<close>, a string or a bool. A finite
  \<open>float64\<close> is named by the real number it denotes. Two interface values are equal when their dynamic
  types and their values are equal, which is equality of \<open>ident\<close>.

  \<open>json_id\<close> is the \<open>id\<close> member of a JSON message and \<open>decode_id\<close> is what
  \<open>encoding/json\<close> stores for it in a field of type \<open>interface{}\<close>: nil for a missing member
  and for \<open>null\<close>, a \<open>float64\<close> for every number, a string for a string, a bool for
  \<open>true\<close> and \<open>false\<close>. \<open>JNumber x\<close> is the number whose \<open>float64\<close> value is \<open>x\<close>. JSON-RPC
  allows null, numbers and strings as identifiers. An array or an object in the place of
  the identifier is left out of \<open>json_id\<close>: \<open>Decode\<close> stores a slice or a map for it, which
  cannot be a map key, so that the lookup \<open>c.requests[resp.ID]\<close> of the read loop panics
  instead of missing.
\<close>

datatype ident = IdNil | IdInt64 int | IdFloat64 real | IdString string | IdBool bool

datatype json_id = JAbsent | JNull | JNumber real | JString string | JBool bool

fun decode_id :: "json_id \<Rightarrow> ident" where
  "decode_id JAbsent = IdNil"
| "decode_id JNull = IdNil"
| "decode_id (JNumber x) = IdFloat64 x"
| "decode_id (JString s) = IdString s"
| "decode_id (JBool b) = IdBool b"

type_synonym RawMessage = string

definition JSONRPCVersion :: string where
  "JSONRPCVersion = ''2.0''"

definition MethodInitialize :: string where
  "MethodInitialize = ''initialize''"

definition ErrCodeParseError :: int where
  "ErrCodeParseError = - 32700"

definition ErrCodeInvalidRequest :: int where
  "ErrCodeInvalidRequest = - 32600"

definition ErrCodeMethodNotFound :: int where
  "ErrCodeMethodNotFound = - 32601"

definition ErrCodeInvalidParams :: int where
  "ErrCodeInvalidParams = - 32602"

definition ErrCodeInternalError :: int where
  "ErrCodeInternalError = - 32603"

record JSONRPCError =
  Code :: int
  Message :: string
  ErrorData :: go_value

record JSONRPCRequest =
  RequestJSONRPC :: string
  RequestID :: ident
  Method :: string
  Params :: "RawMessage option"

record JSONRPCResponse =
  JSONRPC :: string
  ID :: ident
  Result :: "RawMessage option"
  ResponseError :: "JSONRPCError option"

definition NewJSONRPCError :: "int \<Rightarrow> string \<Rightarrow> go_value \<Rightarrow> JSONRPCError" where
  "NewJSONRPCError code message data = \<lparr>Code = code, Message = message, ErrorData = data\<rparr>"

text \<open>
  The \<open>result\<close> argument of \<open>NewJSONRPCResponse\<close> is a value of type \<open>interface{}\<close>; what
  matters of it is whether it is nil and what \<open>json.Marshal\<close> makes of it.
\<close>

datatype go_result = NilResult | Marshals RawMessage | MarshalFails error

definition NewJSONRPCResponse ::
  "ident \<Rightarrow> go_result \<Rightarrow> JSONRPCError option \<Rightarrow> error + JSONRPCResponse" where
  "NewJSONRPCResponse rid result err =
     (case err of
        Some e \<Rightarrow>
          Inr \<lparr>JSONRPC = JSONRPCVersion, ID = rid, Result = None, ResponseError = Some e\<rparr>
      | None \<Rightarrow>
         (case result of
            NilResult \<Rightarrow>
              Inr \<lparr>JSONRPC = JSONRPCVersion, ID = rid, Result = None, ResponseError = None\<rparr>
          | Marshals resultJSON \<Rightarrow>
              Inr \<lparr>JSONRPC = JSONRPCVersion, ID = rid, Result = Some resultJSON,
                   ResponseError = None\<rparr>
          | MarshalFails e \<Rightarrow> Inl (''failed to marshal result: '' @ e)))"

section \<open>Method dispatcher\<close>

text \<open>
  A handler maps the raw parameters to a result value and an error. For \<open>initialize\<close> the
  server needs two things of the JSON library: whether the parameters unmarshal into
  \<open>InitializeParams\<close>, and the marshalled \<open>InitializeResult\<close>; both are fields of the
  server model.
\<close>

type_synonym HandlerFunc = "RawMessage option \<Rightarrow> go_result \<times> error option"

record Server =
  ServerName :: string
  ServerVersion :: string
  handlers :: "string \<rightharpoonup> HandlerFunc"
  UnmarshalInitializeParams :: "RawMessage option \<Rightarrow> error option"
  MarshalInitializeResult :: go_result

definition RegisterHandler :: "Server \<Rightarrow> string \<Rightarrow> HandlerFunc \<Rightarrow> Server" where
  "RegisterHandler s method handler = s\<lparr>handlers := (handlers s)(method \<mapsto> handler)\<rparr>"

definition handleInitialize :: "Server \<Rightarrow> JSONRPCRequest \<Rightarrow> error + JSONRPCResponse" where
  "handleInitialize s req =
     (case UnmarshalInitializeParams s (Params req) of
        Some err \<Rightarrow>
          NewJSONRPCResponse (RequestID req) NilResult
            (Some (NewJSONRPCError ErrCodeInvalidParams ''Invalid initialize parameters'' VNil))
      | None \<Rightarrow> NewJSONRPCResponse (RequestID req) (MarshalInitializeResult s) None)"

definition HandleRequest :: "Server \<Rightarrow> JSONRPCRequest \<Rightarrow> error + JSONRPCResponse" where
  "HandleRequest s req =
     (if Method req = MethodInitialize then handleInitialize s req
      else case handlers s (Method req) of
        None \<Rightarrow>
          NewJSONRPCResponse (RequestID req) NilResult
            (Some (NewJSONRPCError ErrCodeMethodNotFound
                     (''Method not found: '' @ Method req) VNil))
      | Some handler \<Rightarrow>
         (case handler (Params req) of
            (result, Some err) \<Rightarrow>
              NewJSONRPCResponse (RequestID req) NilResult
                (Some (NewJSONRPCError ErrCodeInternalError err VNil))
          | (result, None) \<Rightarrow> NewJSONRPCResponse (RequestID req) result None))"

text \<open>
  One round of the loop of \<open>Serve\<close> sees, in this order: whether the context is done; what
  \<open>Decode\<close> returns (end of stream, another error, or an envelope); and, when it writes a
  response, whether \<open>Encode\<close> fails. The run of the server is given by the list of what
  the rounds see; the stream has ended when the list has. \<open>Serve\<close> returns the
  responses it wrote, in order, and its return value.
\<close>

datatype decoded = DecodeError | Envelope JSONRPCRequest

record round =
  ctxDone :: bool
  decode :: decoded
  encodeError :: "error option"

definition parse_error_response :: JSONRPCResponse where
  "parse_error_response =
     \<lparr>JSONRPC = JSONRPCVersion, ID = IdNil, Result = None,
      ResponseError = Some (NewJSONRPCError ErrCodeParseError ''Parse error'' VNil)\<rparr>"

definition response_for :: "Server \<Rightarrow> JSONRPCRequest \<Rightarrow> JSONRPCResponse" where
  "response_for s req =
     (case HandleRequest s req of
        Inr resp \<Rightarrow> resp
      | Inl err \<Rightarrow>
          \<lparr>JSONRPC = JSONRPCVersion, ID = RequestID req, Result = None,
           ResponseError = Some (NewJSONRPCError ErrCodeInternalError err VNil)\<rparr>)"

fun Serve :: "Server \<Rightarrow> round list \<Rightarrow> JSONRPCResponse list \<times> error option" where
  "Serve s [] = ([], None)"
| "Serve s (r # rs) =
     (if ctxDone r then ([], Some ''context canceled'')
      else case decode r of
        DecodeError \<Rightarrow>
          (case Serve s rs of (written, ret) \<Rightarrow>
             ((case encodeError r of None \<Rightarrow> [parse_error_response] | Some e \<Rightarrow> []) @ written,
              ret))
      | Envelope req \<Rightarrow>
         (case encodeError r of
            Some e \<Rightarrow> ([], Some (''failed to encode response: '' @ e))
          | None \<Rightarrow>
             (case Serve s rs of (written, ret) \<Rightarrow> (response_for s req # written, ret))))"

text \<open>
  A server for the concrete evaluations: \<open>tools/list\<close> answers, \<open>tools/call\<close> fails, and no
  other method is registered.
\<close>

definition sample_server :: Server where
  "sample_server =
     \<lparr>ServerName = ''kubekey'', ServerVersion = ''1.0.0'',
      handlers = [''tools/list'' \<mapsto> (\<lambda>params. (Marshals ''[]'', None)),
                  ''tools/call'' \<mapsto> (\<lambda>params. (NilResult, Some ''skill not found: nope''))],
      UnmarshalInitializeParams = (\<lambda>params. None),
      MarshalInitializeResult = Marshals ''{}''\<rparr>"

definition sample_request :: "real \<Rightarrow> string \<Rightarrow> JSONRPCRequest" where
  "sample_request n method =
     \<lparr>RequestJSONRPC = ''2.0'', RequestID = decode_id (JNumber n), Method = method,
      Params = None\<rparr>"

section \<open>Request correlator\<close>

text \<open>
  \<open>Client.nextID\<close> is an \<open>int64\<close>: an integer with the wrap-around of \<open>c.nextID++\<close> written
  out.
\<close>

definition wrap64 :: "int \<Rightarrow> int" where
  "wrap64 n = (n + 2 ^ 63) mod 2 ^ 64 - 2 ^ 63"

text \<open>
  A response as it arrives on the wire, and what \<open>Decode\<close> stores for it in a
  \<open>JSONRPCResponse\<close>.
\<close>

record wire_response =
  wireID :: json_id
  wireResult :: "RawMessage option"
  wireError :: "JSONRPCError option"

definition decode_response :: "wire_response \<Rightarrow> JSONRPCResponse" where
  "decode_response w =
     \<lparr>JSONRPC = JSONRPCVersion, ID = decode_id (wireID w), Result = wireResult w,
      ResponseError = wireError w\<rparr>"

text \<open>
  Concurrent invocations of \<open>Call\<close> are numbered; invocation \<open>t\<close> is at one of the
  following places. \<open>HasID\<close>: it has left the section guarded by \<open>idMu\<close> with its
  identifier. \<open>Registered\<close>: it has made its channel and stored it in \<open>requests\<close>.
  \<open>Waiting\<close>: \<open>Encode\<close> has written the request and the invocation is in the \<open>select\<close>.
  \<open>Returned\<close>: it has returned, because the request could not be built, because \<open>Encode\<close>
  failed, because the context was done, or with the response it received.
\<close>

datatype outcome =
    RequestFailed
  | SendFailed
  | ContextDone
  | Response JSONRPCResponse

datatype call_state =
    NotCalled
  | HasID int
  | Registered int
  | Waiting int
  | Returned outcome

text \<open>
  The client: \<open>requests\<close> maps an identifier to a response channel, and the channel made
  by invocation \<open>t\<close> is named \<open>t\<close>; \<open>channel t\<close> is the content of its buffer of capacity
  one; \<open>sent\<close> lists the identifiers of the requests written, in order; \<open>reading\<close> says
  that the loop of \<open>Start\<close> has not returned.
\<close>

record Client =
  requests :: "ident \<rightharpoonup> nat"
  channel :: "nat \<Rightarrow> JSONRPCResponse option"
  nextID :: int
  calls :: "nat \<Rightarrow> call_state"
  sent :: "ident list"
  reading :: bool

definition NewClient :: Client where
  "NewClient =
     \<lparr>requests = Map.empty, channel = (\<lambda>t. None), nextID = 1, calls = (\<lambda>t. NotCalled),
      sent = [], reading = True\<rparr>"

text \<open>The atomic steps of \<open>Call\<close>, one definition for each, in the order of the source.\<close>

definition generate_id :: "Client \<Rightarrow> nat \<Rightarrow> Client" where
  "generate_id c t =
     (case calls c t of
        NotCalled \<Rightarrow> c\<lparr>calls := (calls c)(t := HasID (nextID c)), nextID := wrap64 (nextID c + 1)\<rparr>
      | _ \<Rightarrow> c)"

definition create_request_fails :: "Client \<Rightarrow> nat \<Rightarrow> Client" where
  "create_request_fails c t =
     (case calls c t of
        HasID i \<Rightarrow> c\<lparr>calls := (calls c)(t := Returned RequestFailed)\<rparr>
      | _ \<Rightarrow> c)"

definition register_channel :: "Client \<Rightarrow> nat \<Rightarrow> Client" where
  "register_channel c t =
     (case calls c t of
        HasID i \<Rightarrow>
          c\<lparr>channel := (channel c)(t := None),
            requests := (requests c)(IdInt64 i \<mapsto> t),
            calls := (calls c)(t := Registered i)\<rparr>
      | _ \<Rightarrow> c)"

definition send_request :: "Client \<Rightarrow> nat \<Rightarrow> Client" where
  "send_request c t =
     (case calls c t of
        Registered i \<Rightarrow> c\<lparr>sent := sent c @ [IdInt64 i], calls := (calls c)(t := Waiting i)\<rparr>
      | _ \<Rightarrow> c)"

definition send_request_fails :: "Client \<Rightarrow> nat \<Rightarrow> Client" where
  "send_request_fails c t =
     (case calls c t of
        Registered i \<Rightarrow>
          c\<lparr>requests := (requests c)(IdInt64 i := None),
            calls := (calls c)(t := Returned SendFailed)\<rparr>
      | _ \<Rightarrow> c)"

definition context_done :: "Client \<Rightarrow> nat \<Rightarrow> Client" where
  "context_done c t =
     (case calls c t of
        Waiting i \<Rightarrow>
          c\<lparr>requests := (requests c)(IdInt64 i := None),
            calls := (calls c)(t := Returned ContextDone)\<rparr>
      | _ \<Rightarrow> c)"

definition receive_response :: "Client \<Rightarrow> nat \<Rightarrow> Client" where
  "receive_response c t =
     (case calls c t of
        Waiting i \<Rightarrow>
         (case channel c t of
            Some resp \<Rightarrow>
              c\<lparr>channel := (channel c)(t := None),
                requests := (requests c)(IdInt64 i := None),
                calls := (calls c)(t := Returned (Response resp))\<rparr>
          | None \<Rightarrow> c)
      | _ \<Rightarrow> c)"

text \<open>
  One round of the loop of \<open>Start\<close> that decodes a response: the channel is looked up
  under the decoded \<open>ID\<close>, and the response is put into it unless the buffer is full. The
  loop ends on cancellation, on end of stream and on any other decode error.
\<close>

definition read_loop_round :: "Client \<Rightarrow> wire_response \<Rightarrow> Client" where
  "read_loop_round c w =
     (if \<not> reading c then c
      else
        let resp = decode_response w
        in case requests c (ID resp) of
             None \<Rightarrow> c
           | Some t \<Rightarrow>
              (case channel c t of
                 None \<Rightarrow> c\<lparr>channel := (channel c)(t := Some resp)\<rparr>
               | Some full \<Rightarrow> c))"

definition read_loop_ends :: "Client \<Rightarrow> Client" where
  "read_loop_ends c = c\<lparr>reading := False\<rparr>"

text \<open>
  A run of the client is a list of events, in the order in which the scheduler lets the
  invocations and the read loop take their steps; an event whose step is not enabled
  leaves the client as it is.
\<close>

datatype event =
    GenerateID nat
  | CreateRequestFails nat
  | RegisterChannel nat
  | SendRequest nat
  | SendRequestFails nat
  | ContextIsDone nat
  | ReceiveResponse nat
  | ResponseArrives wire_response
  | ReadLoopEnds

definition step :: "Client \<Rightarrow> event \<Rightarrow> Client" where
  "step c e =
     (case e of
        GenerateID t \<Rightarrow> generate_id c t
      | CreateRequestFails t \<Rightarrow> create_request_fails c t
      | RegisterChannel t \<Rightarrow> register_channel c t
      | SendRequest t \<Rightarrow> send_request c t
      | SendRequestFails t \<Rightarrow> send_request_fails c t
      | ContextIsDone t \<Rightarrow> context_done c t
      | ReceiveResponse t \<Rightarrow> receive_response c t
      | ResponseArrives w \<Rightarrow> read_loop_round c w
      | ReadLoopEnds \<Rightarrow> read_loop_ends c)"

definition run :: "Client \<Rightarrow> event list \<Rightarrow> Client" where
  "run c es = foldl step c es"

text \<open>Invocation \<open>t\<close> holds identifier \<open>i\<close>; and \<open>i\<close> is pending for it.\<close>

definition holds_id :: "Client \<Rightarrow> nat \<Rightarrow> int \<Rightarrow> bool" where
  "holds_id c t i \<longleftrightarrow> calls c t = HasID i \<or> calls c t = Registered i \<or> calls c t = Waiting i"

definition pending :: "Client \<Rightarrow> nat \<Rightarrow> int \<Rightarrow> bool" where
  "pending c t i \<longleftrightarrow> calls c t = Registered i \<or> calls c t = Waiting i"

section \<open>Process transport\<close>

text \<open>
  What \<open>Connection.Stop\<close> touches. A pipe end is open or closed. The child process has
  not been started (\<open>Command.Process\<close> is nil), runs, has ended or has been killed without
  having been waited for, or has been reaped by \<open>Wait\<close>. The read loop has not been
  launched, runs, or has returned; the wait group counts it while it runs.
\<close>

datatype pipe = Open | Closed

datatype process = NotStarted | Running | Ended | Killed | Reaped

datatype read_loop = NotLaunched | Looping | Finished

record Connection =
  cancelled :: bool
  Stdin :: "pipe option"
  Stdout :: "pipe option"
  Cmd :: "process option"
  loop :: read_loop

definition NewStdioConnection :: Connection where
  "NewStdioConnection =
     \<lparr>cancelled = False, Stdin = Some Open, Stdout = Some Open, Cmd = Some NotStarted,
      loop = NotLaunched\<rparr>"

text \<open>
  The library calls, each with the error it returns. Closing a closed pipe, killing a
  reaped process and waiting a second time are errors and change nothing. \<open>Wait\<close> also
  closes the pipes of the command (\<open>close_after_wait\<close>). \<open>Wait\<close> on a process that still runs, and
  \<open>WaitGroup.Wait\<close> on a loop that has no reason to return, block: \<open>None\<close>.
\<close>

definition Close :: "pipe \<Rightarrow> pipe \<times> error option" where
  "Close p = (case p of Open \<Rightarrow> (Closed, None) | Closed \<Rightarrow> (Closed, Some ''file already closed''))"

definition Kill :: "process \<Rightarrow> process \<times> error option" where
  "Kill p =
     (case p of
        Running \<Rightarrow> (Killed, None)
      | Ended \<Rightarrow> (Ended, None)
      | Killed \<Rightarrow> (Killed, None)
      | Reaped \<Rightarrow> (Reaped, Some ''os: process already finished'')
      | NotStarted \<Rightarrow> (NotStarted, Some ''os: process not initialized''))"

definition close_after_wait :: "pipe option \<Rightarrow> pipe option" where
  "close_after_wait p = (case p of None \<Rightarrow> None | Some q \<Rightarrow> Some Closed)"

definition Wait :: "Connection \<Rightarrow> (Connection \<times> error option) option" where
  "Wait c =
     (case Cmd c of
        None \<Rightarrow> Some (c, Some ''exec: not started'')
      | Some NotStarted \<Rightarrow> Some (c, Some ''exec: not started'')
      | Some Running \<Rightarrow> None
      | Some Reaped \<Rightarrow> Some (c, Some ''exec: Wait was already called'')
      | Some Ended \<Rightarrow>
          Some (c\<lparr>Cmd := Some Reaped, Stdin := close_after_wait (Stdin c),
                  Stdout := close_after_wait (Stdout c)\<rparr>, None)
      | Some Killed \<Rightarrow>
          Some (c\<lparr>Cmd := Some Reaped, Stdin := close_after_wait (Stdin c),
                  Stdout := close_after_wait (Stdout c)\<rparr>, Some ''signal: killed''))"

definition wg_Wait :: "Connection \<Rightarrow> Connection option" where
  "wg_Wait c =
     (case loop c of
        Looping \<Rightarrow>
          if cancelled c \<or> Stdout c \<noteq> Some Open then Some (c\<lparr>loop := Finished\<rparr>) else None
      | _ \<Rightarrow> Some c)"

text \<open>
  \<open>Connection.Start\<close>, with the error of \<open>Command.Start\<close> as a parameter. A
  \<open>Command.Start\<close> that fails closes the pipes of the command before it returns, and
  the read loop is not launched.
\<close>

definition Start :: "error option \<Rightarrow> Connection \<Rightarrow> Connection \<times> error option" where
  "Start startError c =
     (case startError of
        Some e \<Rightarrow>
          (c\<lparr>Stdin := close_after_wait (Stdin c), Stdout := close_after_wait (Stdout c)\<rparr>,
           Some (''failed to start command: '' @ e))
      | None \<Rightarrow> (c\<lparr>Cmd := Some Running, loop := Looping\<rparr>, None))"

text \<open>
  \<open>Connection.Stop\<close>. The errors of \<open>Close\<close>, \<open>Kill\<close> and \<open>Wait\<close> are dropped, as in the
  source; the function returns the connection after the call and the returned error,
  or \<open>None\<close> when a call it makes blocks for ever.
\<close>

definition stop_pipes :: "Connection \<Rightarrow> Connection" where
  "stop_pipes c =
     (let c1 = c\<lparr>cancelled := True\<rparr>;
          c2 = (case Stdin c1 of None \<Rightarrow> c1 | Some p \<Rightarrow> c1\<lparr>Stdin := Some (fst (Close p))\<rparr>)
      in case Stdout c2 of None \<Rightarrow> c2 | Some p \<Rightarrow> c2\<lparr>Stdout := Some (fst (Close p))\<rparr>)"

definition stop_process :: "Connection \<Rightarrow> Connection option" where
  "stop_process c =
     (case Cmd c of
        None \<Rightarrow> Some c
      | Some NotStarted \<Rightarrow> Some c
      | Some p \<Rightarrow> map_option fst (Wait (c\<lparr>Cmd := Some (fst (Kill p))\<rparr>)))"

definition Stop :: "Connection \<Rightarrow> (Connection \<times> error option) option" where
  "Stop c =
     (case stop_process (stop_pipes c) of
        None \<Rightarrow> None
      | Some c' \<Rightarrow> (case wg_Wait c' of None \<Rightarrow> None | Some c'' \<Rightarrow> Some (c'', None)))"

text \<open>The state in which \<open>Stop\<close> leaves a connection.\<close>

definition stopped :: "Connection \<Rightarrow> bool" where
  "stopped c \<longleftrightarrow>
     cancelled c \<and> Stdin c \<noteq> Some Open \<and> Stdout c \<noteq> Some Open \<and>
     (Cmd c = None \<or> Cmd c = Some NotStarted \<or> Cmd c = Some Reaped) \<and> loop c \<noteq> Looping"

text \<open>
  Invariants of the runs of the client. \<open>never_delivered\<close>: every key of the table is an
  \<open>int64\<close>, every channel is empty and no invocation has returned with a response.
  \<open>table_inv c n\<close>, for a client reached in \<open>n\<close> steps: the counter has not wrapped, the
  identifiers held lie below it, no two invocations hold the same identifier, and the
  table holds exactly the identifiers that are pending.
\<close>

definition never_delivered :: "Client \<Rightarrow> bool" where
  "never_delivered c \<longleftrightarrow>
     (\<forall>k t. requests c k = Some t \<longrightarrow> (\<exists>i. k = IdInt64 i)) \<and>
     (\<forall>t. channel c t = None) \<and>
     (\<forall>t r. calls c t \<noteq> Returned (Response r))"

definition id_range :: "Client \<Rightarrow> bool" where
  "id_range c \<longleftrightarrow> (\<forall>t i. holds_id c t i \<longrightarrow> 1 \<le> i \<and> i < nextID c)"

definition id_unique :: "Client \<Rightarrow> bool" where
  "id_unique c \<longleftrightarrow> (\<forall>t t' i. holds_id c t i \<and> holds_id c t' i \<longrightarrow> t = t')"

definition table_exact :: "Client \<Rightarrow> bool" where
  "table_exact c \<longleftrightarrow> (\<forall>k t. requests c k = Some t \<longleftrightarrow> (\<exists>i. k = IdInt64 i \<and> pending c t i))"

definition table_inv :: "Client \<Rightarrow> nat \<Rightarrow> bool" where
  "table_inv c n \<longleftrightarrow>
     1 \<le> nextID c \<and> nextID c \<le> 1 + int n \<and> id_range c \<and> id_unique c \<and> table_exact c"

text \<open>
  Runs for the concrete evaluations. \<open>one_call\<close>: one invocation gets identifier 1,
  registers its channel and sends its request; \<open>reply_to_1\<close> is the reply
  \<open>{"jsonrpc": "2.0", "id": 1, "result": {}}\<close> of the server. \<open>three_calls\<close>: three
  invocations interleave; the context of the first is done, the second waits, and the
  send of the third fails.
\<close>

definition one_call :: "event list" where
  "one_call = [GenerateID 0, RegisterChannel 0, SendRequest 0]"

definition reply_to_1 :: wire_response where
  "reply_to_1 = \<lparr>wireID = JNumber 1, wireResult = Some ''{}'', wireError = None\<rparr>"

definition three_calls :: "event list" where
  "three_calls =
     [GenerateID 0, GenerateID 1, RegisterChannel 1, RegisterChannel 0, SendRequest 0,
      GenerateID 2, SendRequest 1, RegisterChannel 2, ContextIsDone 0, SendRequestFails 2]"

section \<open>Registry: registration\<close>

text \<open>
  C10. \<open>Register\<close> returns an error exactly when the skill is nil or its name is empty, and
  then leaves the registry as it was. Every other call succeeds and binds the name to the
  new descriptor, whether or not the name was bound before: a later registration replaces
  an earlier one and is never refused.
\<close>

theorem Register_error_iff_nil_or_empty:
  "(snd (Register r skill) \<noteq> None \<longleftrightarrow> skill = None \<or> Name (the skill) = '''') \<and>
   (snd (Register r skill) \<noteq> None \<longrightarrow> fst (Register r skill) = r) \<and>
   (\<forall>s. skill = Some s \<and> Name s \<noteq> '''' \<longrightarrow>
      Register r skill = (r(Name s \<mapsto> s), None) \<and>
      Get (fst (Register r skill)) (Name s) = Inr s)"
  by (auto simp: Register_def Get_def split: option.splits)

theorem Register_error_iff_nil_or_empty_witness:
  "snd (Register NewRegistry None) \<noteq> None \<and>
   fst (Register NewRegistry None) = NewRegistry \<and>
   snd (Register NewRegistry (Some (kubekey\<lparr>Name := ''''\<rparr>))) \<noteq> None \<and>
   Register [''kubekey'' \<mapsto> kubekey] (Some kubekey_v2)
     = ([''kubekey'' \<mapsto> kubekey_v2], None) \<and>
   Get (fst (Register [''kubekey'' \<mapsto> kubekey] (Some kubekey_v2))) ''kubekey'' = Inr kubekey_v2"
proof -
  have n: "Name kubekey_v2 = ''kubekey''"
    by (simp add: kubekey_v2_def kubekey_def)
  have a: "snd (Register NewRegistry None) \<noteq> None \<and> fst (Register NewRegistry None) = NewRegistry"
    using Register_error_iff_nil_or_empty [of NewRegistry None] by simp
  have b: "snd (Register NewRegistry (Some (kubekey\<lparr>Name := ''''\<rparr>))) \<noteq> None"
    using Register_error_iff_nil_or_empty [of NewRegistry "Some (kubekey\<lparr>Name := ''''\<rparr>)"] by simp
  have "Some kubekey_v2 = Some kubekey_v2 \<and> Name kubekey_v2 \<noteq> ''''"
    by (simp add: n)
  note c0 = Register_error_iff_nil_or_empty
      [of "[''kubekey'' \<mapsto> kubekey]" "Some kubekey_v2",
       THEN conjunct2, THEN conjunct2, rule_format, OF this, unfolded n]
  have c1: "Register [''kubekey'' \<mapsto> kubekey] (Some kubekey_v2) = ([''kubekey'' \<mapsto> kubekey_v2], None)"
    using c0 [THEN conjunct1] by (simp only: fun_upd_upd)
  have c2: "Get (fst (Register [''kubekey'' \<mapsto> kubekey] (Some kubekey_v2))) ''kubekey'' = Inr kubekey_v2"
    using c0 [THEN conjunct2] .
  show ?thesis using a b c1 c2 by blast
qed

section \<open>Capability adapter: tool round trip\<close>

lemma distinct_map_of_rev_alist:
  "distinct (map fst xs) \<Longrightarrow> map_of (rev xs) = map_of xs"
proof (induction xs)
  case Nil
  show ?case by simp
next
  case (Cons x xs)
  then have ih: "map_of (rev xs) = map_of xs" and fresh: "fst x \<notin> fst ` set xs"
    by auto
  from fresh have "map_of xs (fst x) = None"
    by (simp add: map_of_eq_None_iff)
  then show ?case
    by (cases x) (auto simp: ih map_add_def fun_eq_iff split: option.splits)
qed

lemma fold_update_map_of:
  "map_of (fold (\<lambda>(k, v) p. AList.update k v p) xs p) = map_of p ++ map_of (rev xs)"
  by (induction xs arbitrary: p)
     (auto simp: update_conv' map_add_def fun_eq_iff split: option.splits)

lemma fold_update_distinct:
  "distinct (map fst p) \<Longrightarrow> distinct (map fst (fold (\<lambda>(k, v) p. AList.update k v p) xs p))"
  by (induction xs arbitrary: p) (auto simp: distinct_update)

lemma copy_other_map_of:
  "map_of (copy_other_arguments args p) k =
     (if k \<noteq> ''action'' \<and> k \<noteq> ''params'' \<and> map_of (rev args) k \<noteq> None
      then map_of (rev args) k else map_of p k)"
  unfolding copy_other_arguments_def
  by (induction args arbitrary: p)
     (auto simp: update_conv' map_add_def split: option.splits)

lemma copy_other_distinct:
  "distinct (map fst p) \<Longrightarrow> distinct (map fst (copy_other_arguments args p))"
  unfolding copy_other_arguments_def
  by (induction args arbitrary: p) (auto simp: distinct_update)

lemma extract_action_distinct:
  "distinct (map fst p) \<Longrightarrow> distinct (map fst (extract_action args p))"
  by (auto simp: extract_action_def distinct_update split: option.splits go_value.splits)

lemma extract_params_object_distinct:
  "distinct (map fst p) \<Longrightarrow> distinct (map fst (extract_params_object args p))"
  by (auto simp: extract_params_object_def fold_update_distinct split: option.splits go_value.splits)

lemma ToolCallToSkillParams_distinct:
  assumes "ToolCallToSkillParams tc = Inr ps"
  shows "distinct (map fst ps)"
proof -
  have "ps = copy_other_arguments (Arguments tc)
          (extract_params_object (Arguments tc) (extract_action (Arguments tc) []))"
    using assms by (simp add: ToolCallToSkillParams_def)
  then show ?thesis
    by (simp add: copy_other_distinct extract_params_object_distinct extract_action_distinct)
qed

lemma ToolCallToSkillParams_passthrough:
  assumes "ToolCallToSkillParams tc = Inr ps" "distinct (map fst (Arguments tc))"
    "map_of (Arguments tc) k = Some v" "k \<noteq> ''action''" "k \<noteq> ''params''"
  shows "map_of ps k = Some v"
  using assms
  by (auto simp: ToolCallToSkillParams_def copy_other_map_of distinct_map_of_rev_alist)

lemma ToolCallToSkillParams_flatten:
  assumes "ToolCallToSkillParams tc = Inr ps" "distinct (map fst (Arguments tc))"
    "map_of (Arguments tc) ''params'' = Some (VMap obj)"
    "distinct (map fst obj)" "map_of obj k = Some v"
    "k = ''action'' \<or> k = ''params'' \<or> map_of (Arguments tc) k = None"
  shows "map_of ps k = Some v"
  using assms
  by (auto simp: ToolCallToSkillParams_def copy_other_map_of distinct_map_of_rev_alist
        extract_params_object_def fold_update_map_of map_add_def)

lemma ToolCallToSkillParams_example:
  assumes "ToolCallToSkillParams tc = Inr ps" "distinct (map fst (Arguments tc))"
    "map_of (Arguments tc) =
       [''action'' \<mapsto> VString ''create'', ''params'' \<mapsto> VMap [(''foo'', VString ''bar'')]]"
  shows "map_of ps = [''action'' \<mapsto> VString ''create'', ''foo'' \<mapsto> VString ''bar'']"
proof
  fix k
  have a: "map_of (Arguments tc) ''action'' = Some (VString ''create'')"
    and p: "map_of (Arguments tc) ''params'' = Some (VMap [(''foo'', VString ''bar'')])"
    and o: "\<And>k. k \<noteq> ''action'' \<Longrightarrow> k \<noteq> ''params'' \<Longrightarrow> map_of (Arguments tc) k = None"
    by (simp_all add: assms(3))
  show "map_of ps k = [''action'' \<mapsto> VString ''create'', ''foo'' \<mapsto> VString ''bar''] k"
    using a p o [of k] assms(1,2)
    by (auto simp: ToolCallToSkillParams_def copy_other_map_of distinct_map_of_rev_alist
        extract_params_object_def extract_action_def fold_update_map_of map_add_def update_conv')
qed

text \<open>
  C5. A descriptor converts to a tool with the descriptor's name and description whose
  schema lists \<open>action\<close> as required. A tool call with the arguments
  \<open>{action: "create", params: {foo: "bar"}}\<close>, in whichever order the argument map is
  visited, converts to exactly the parameters \<open>{action: "create", foo: "bar"}\<close>. In general
  an entry of the nested \<open>params\<close> object becomes a top-level parameter unless a top-level
  argument other than \<open>action\<close> and \<open>params\<close> has the same key, and every top-level
  argument other than \<open>action\<close> and \<open>params\<close> is passed through with its value.
\<close>

theorem tool_round_trip:
  "(\<exists>tool. SkillToTool s = Inr tool \<and> ToolName tool = Name s \<and>
      ToolDescription tool = Description s \<and>
      map_of (InputSchema tool) ''required'' = Some (VStrings [''action''])) \<and>
   (\<forall>args. distinct (map fst args) \<and>
      map_of args = [''action'' \<mapsto> VString ''create'',
                     ''params'' \<mapsto> VMap [(''foo'', VString ''bar'')]] \<longrightarrow>
      (\<exists>ps. ToolCallToSkillParams \<lparr>CallName = Name s, Arguments = args\<rparr> = Inr ps \<and>
         distinct (map fst ps) \<and>
         map_of ps = [''action'' \<mapsto> VString ''create'', ''foo'' \<mapsto> VString ''bar''])) \<and>
   (\<forall>args obj k v. distinct (map fst args) \<and> map_of args ''params'' = Some (VMap obj) \<and>
      distinct (map fst obj) \<and> map_of obj k = Some v \<and>
      (k = ''action'' \<or> k = ''params'' \<or> map_of args k = None) \<longrightarrow>
      (\<exists>ps. ToolCallToSkillParams \<lparr>CallName = Name s, Arguments = args\<rparr> = Inr ps \<and>
         map_of ps k = Some v)) \<and>
   (\<forall>args k v. distinct (map fst args) \<and> map_of args k = Some v \<and>
      k \<noteq> ''action'' \<and> k \<noteq> ''params'' \<longrightarrow>
      (\<exists>ps. ToolCallToSkillParams \<lparr>CallName = Name s, Arguments = args\<rparr> = Inr ps \<and>
         map_of ps k = Some v))"
proof (intro conjI allI impI)
  show "\<exists>tool. SkillToTool s = Inr tool \<and> ToolName tool = Name s \<and>
      ToolDescription tool = Description s \<and>
      map_of (InputSchema tool) ''required'' = Some (VStrings [''action''])"
    by (simp add: SkillToTool_def generateToolSchema_def)
next
  fix args :: go_map
  let ?tc = "\<lparr>CallName = Name s, Arguments = args\<rparr>"
  assume h: "distinct (map fst args) \<and>
      map_of args = [''action'' \<mapsto> VString ''create'',
                     ''params'' \<mapsto> VMap [(''foo'', VString ''bar'')]]"
  obtain ps where ps: "ToolCallToSkillParams ?tc = Inr ps"
    by (simp add: ToolCallToSkillParams_def)
  have "distinct (map fst ps)"
    using ps by (rule ToolCallToSkillParams_distinct)
  moreover have "map_of ps = [''action'' \<mapsto> VString ''create'', ''foo'' \<mapsto> VString ''bar'']"
    using ToolCallToSkillParams_example [OF ps] h by simp
  ultimately show "\<exists>ps. ToolCallToSkillParams ?tc = Inr ps \<and> distinct (map fst ps) \<and>
         map_of ps = [''action'' \<mapsto> VString ''create'', ''foo'' \<mapsto> VString ''bar'']"
    using ps by blast
next
  fix args obj :: go_map and k v
  let ?tc = "\<lparr>CallName = Name s, Arguments = args\<rparr>"
  assume h: "distinct (map fst args) \<and> map_of args ''params'' = Some (VMap obj) \<and>
      distinct (map fst obj) \<and> map_of obj k = Some v \<and>
      (k = ''action'' \<or> k = ''params'' \<or> map_of args k = None)"
  obtain ps where ps: "ToolCallToSkillParams ?tc = Inr ps"
    by (simp add: ToolCallToSkillParams_def)
  have "map_of ps k = Some v"
    using ToolCallToSkillParams_flatten [OF ps, of obj k v] h by simp
  then show "\<exists>ps. ToolCallToSkillParams ?tc = Inr ps \<and> map_of ps k = Some v"
    using ps by blast
next
  fix args :: go_map and k v
  let ?tc = "\<lparr>CallName = Name s, Arguments = args\<rparr>"
  assume h: "distinct (map fst args) \<and> map_of args k = Some v \<and>
      k \<noteq> ''action'' \<and> k \<noteq> ''params''"
  obtain ps where ps: "ToolCallToSkillParams ?tc = Inr ps"
    by (simp add: ToolCallToSkillParams_def)
  have "map_of ps k = Some v"
    using ToolCallToSkillParams_passthrough [OF ps, of k v] h by simp
  then show "\<exists>ps. ToolCallToSkillParams ?tc = Inr ps \<and> map_of ps k = Some v"
    using ps by blast
qed

theorem tool_round_trip_witness:
  "(\<exists>tool. SkillToTool kubekey = Inr tool \<and> ToolName tool = ''kubekey'' \<and>
      ToolDescription tool = ''Manage clusters'' \<and>
      map_of (InputSchema tool) ''required'' = Some (VStrings [''action''])) \<and>
   (\<exists>ps. ToolCallToSkillParams \<lparr>CallName = ''kubekey'', Arguments =
        [(''params'', VMap [(''foo'', VString ''bar'')]), (''action'', VString ''create'')]\<rparr> = Inr ps \<and>
      distinct (map fst ps) \<and>
      map_of ps = [''action'' \<mapsto> VString ''create'', ''foo'' \<mapsto> VString ''bar'']) \<and>
   (\<exists>ps. ToolCallToSkillParams \<lparr>CallName = ''kubekey'', Arguments =
        [(''action'', VString ''create''), (''params'', VMap [(''foo'', VString ''bar'')])]\<rparr> = Inr ps \<and>
      map_of ps ''foo'' = Some (VString ''bar'')) \<and>
   (\<exists>ps. ToolCallToSkillParams \<lparr>CallName = ''kubekey'', Arguments =
        [(''action'', VString ''create''), (''cluster'', VString ''demo'')]\<rparr> = Inr ps \<and>
      map_of ps ''cluster'' = Some (VString ''demo''))"
proof -
  have n: "Name kubekey = ''kubekey''" and d: "Description kubekey = ''Manage clusters''"
    by (simp_all add: kubekey_def)
  note t = tool_round_trip [of kubekey, unfolded n d]
  have h2: "distinct (map fst [(''params'', VMap [(''foo'', VString ''bar'')]), (''action'', VString ''create'')]) \<and>
      map_of [(''params'', VMap [(''foo'', VString ''bar'')]), (''action'', VString ''create'')]
        = [''action'' \<mapsto> VString ''create'', ''params'' \<mapsto> VMap [(''foo'', VString ''bar'')]]"
    by (auto simp: fun_eq_iff)
  have h3: "distinct (map fst [(''action'', VString ''create''), (''params'', VMap [(''foo'', VString ''bar'')])]) \<and>
      map_of [(''action'', VString ''create''), (''params'', VMap [(''foo'', VString ''bar'')])] ''params''
        = Some (VMap [(''foo'', VString ''bar'')]) \<and>
      distinct (map fst [(''foo'', VString ''bar'')]) \<and>
      map_of [(''foo'', VString ''bar'')] ''foo'' = Some (VString ''bar'') \<and>
      (''foo'' = ''action'' \<or> ''foo'' = ''params'' \<or>
       map_of [(''action'', VString ''create''), (''params'', VMap [(''foo'', VString ''bar'')])] ''foo'' = None)"
    by simp
  have h4: "distinct (map fst [(''action'', VString ''create''), (''cluster'', VString ''demo'')]) \<and>
      map_of [(''action'', VString ''create''), (''cluster'', VString ''demo'')] ''cluster''
        = Some (VString ''demo'') \<and> ''cluster'' \<noteq> ''action'' \<and> ''cluster'' \<noteq> ''params''"
    by simp
  show ?thesis
    using t [THEN conjunct1]
      t [THEN conjunct2, THEN conjunct1, rule_format, OF h2]
      t [THEN conjunct2, THEN conjunct2, THEN conjunct1, rule_format, OF h3]
      t [THEN conjunct2, THEN conjunct2, THEN conjunct2, rule_format, OF h4]
    by blast
qed

section \<open>Direct executor: parameters as environment and arguments\<close>

lemma prepare_param_step:
  "prepare_param os (key, value) (args, env) =
     (args @ arg_pair os (key, value),
      if key = ''script'' \<or> key = ''action'' then env
      else AList.update (''SKILL_PARAM_'' @ key) (Sprint os value) env)"
  by (simp add: prepare_param_def arg_pair_def Let_def)

lemma fold_prepare_args:
  "fst (fold (prepare_param os) params (args, env)) = args @ concat (map (arg_pair os) params)"
  by (induction params arbitrary: args env) (auto simp: prepare_param_step)

lemma fold_prepare_env_other:
  "key \<notin> fst ` set params \<Longrightarrow> name = ''SKILL_PARAM_'' @ key \<Longrightarrow>
   map_of (snd (fold (prepare_param os) params (args, env))) name = map_of env name"
  by (induction params arbitrary: args env)
     (auto simp: prepare_param_step update_conv')

lemma fold_prepare_env:
  "distinct (map fst params) \<Longrightarrow> (key, value) \<in> set params \<Longrightarrow>
   key \<noteq> ''script'' \<Longrightarrow> key \<noteq> ''action'' \<Longrightarrow> name = ''SKILL_PARAM_'' @ key \<Longrightarrow>
   map_of (snd (fold (prepare_param os) params (args, env))) name = Some (Sprint os value)"
proof (induction params arbitrary: args env)
  case Nil
  then show ?case by simp
next
  case (Cons kv params)
  show ?case
  proof (cases "kv = (key, value)")
    case True
    with Cons.prems have fresh: "key \<notin> fst ` set params" by auto
    have "fold (prepare_param os) (kv # params) (args, env)
        = fold (prepare_param os) params
            (args @ arg_pair os (key, value), AList.update name (Sprint os value) env)"
      using True Cons.prems(3,4,5) by (simp add: prepare_param_step)
    then show ?thesis
      using fold_prepare_env_other [OF fresh Cons.prems(5)] by (simp add: update_conv')
  next
    case False
    with Cons.prems have "(key, value) \<in> set params" "distinct (map fst params)" by auto
    from Cons.IH [OF this(2) this(1) Cons.prems(3,4,5)] show ?thesis
      by (cases kv) (simp add: prepare_param_step)
  qed
qed

lemma arg_pair_present:
  assumes "(key, value) \<in> set params" "key \<noteq> ''script''" "key \<noteq> ''action''"
    "Sprint os value \<noteq> []" "Sprint os value ! 0 \<noteq> CHR ''-''"
  shows "\<exists>pre post. concat (map (arg_pair os) params) = pre @ [''--'' @ key, Sprint os value] @ post"
proof -
  from assms(1) obtain xs ys where "params = xs @ (key, value) # ys"
    by (auto simp: in_set_conv_decomp)
  then have "concat (map (arg_pair os) params)
      = concat (map (arg_pair os) xs) @ [''--'' @ key, Sprint os value] @ concat (map (arg_pair os) ys)"
    using assms(2-) by (simp add: arg_pair_def)
  then show ?thesis by blast
qed

lemma arg_pair_absent:
  assumes "distinct (map fst params)" "(key, value) \<in> set params"
    "Sprint os value = [] \<or> Sprint os value ! 0 = CHR ''-''"
  shows "''--'' @ key \<notin> set (concat (map (arg_pair os) params))"
proof
  assume "''--'' @ key \<in> set (concat (map (arg_pair os) params))"
  then obtain kv where kv: "kv \<in> set params" "''--'' @ key \<in> set (arg_pair os kv)"
    by auto
  obtain k v where [simp]: "kv = (k, v)" by (cases kv)
  from kv(2) have q: "Sprint os v \<noteq> []" "Sprint os v ! 0 \<noteq> CHR ''-''"
    and c: "''--'' @ key = ''--'' @ k \<or> ''--'' @ key = Sprint os v"
    by (auto simp: arg_pair_def split: if_splits)
  from c show False
  proof
    assume "''--'' @ key = ''--'' @ k"
    then have "k = key" by simp
    with kv(1) assms(1,2) have "v = value"
      by (auto dest: eq_key_imp_eq_value)
    with q assms(3) show False by simp
  next
    assume "''--'' @ key = Sprint os v"
    then have "Sprint os v ! 0 = CHR ''-''"
      by (metis append_Cons nth_Cons_0)
    with q show False by simp
  qed
qed

lemma begins_with_dash_nth:
  "str \<noteq> [] \<Longrightarrow> begins_with_dash str \<longleftrightarrow> str ! 0 = CHR ''-''"
  by (cases str) (simp_all add: begins_with_dash_def)

lemma prepareExecution_args:
  "fst (prepareExecution os s params) = concat (map (arg_pair os) params)"
  by (simp add: prepareExecution_def fold_prepare_args)

text \<open>
  C8, as the code has it. Every parameter whose key is neither \<open>script\<close> nor \<open>action\<close> is
  exported as the environment variable \<open>SKILL_PARAM_<key>\<close> holding its string form. It is
  also passed as the consecutive arguments \<open>--<key>\<close> and the string form when that string
  is not empty and does not begin with \<open>-\<close>; when the string is empty or begins with
  \<open>-\<close>, no argument \<open>--<key>\<close> is passed. This holds for every order in which the
  parameter map is visited.
\<close>

theorem prepareExecution_exposes_parameter:
  "distinct (map fst params) \<Longrightarrow> (key, value) \<in> set params \<Longrightarrow>
   key \<noteq> ''script'' \<Longrightarrow> key \<noteq> ''action'' \<Longrightarrow>
   map_of (snd (prepareExecution os s params)) (''SKILL_PARAM_'' @ key) = Some (Sprint os value) \<and>
   (Sprint os value \<noteq> [] \<and> \<not> begins_with_dash (Sprint os value) \<longrightarrow>
      (\<exists>pre post. fst (prepareExecution os s params)
         = pre @ [''--'' @ key, Sprint os value] @ post)) \<and>
   (Sprint os value = [] \<or> begins_with_dash (Sprint os value) \<longrightarrow>
      ''--'' @ key \<notin> set (fst (prepareExecution os s params)))"
proof -
  assume h: "distinct (map fst params)" "(key, value) \<in> set params"
    "key \<noteq> ''script''" "key \<noteq> ''action''"
  have env: "map_of (snd (prepareExecution os s params)) (''SKILL_PARAM_'' @ key)
      = Some (Sprint os value)"
    unfolding prepareExecution_def using h by (rule fold_prepare_env) simp
  have present: "\<exists>pre post. fst (prepareExecution os s params)
         = pre @ [''--'' @ key, Sprint os value] @ post"
    if q: "Sprint os value \<noteq> [] \<and> \<not> begins_with_dash (Sprint os value)"
  proof -
    from q have "Sprint os value \<noteq> []" "Sprint os value ! 0 \<noteq> CHR ''-''"
      using begins_with_dash_nth by blast+
    from arg_pair_present [OF h(2,3,4) this] show ?thesis
      by (simp only: prepareExecution_args)
  qed
  have absent: "''--'' @ key \<notin> set (fst (prepareExecution os s params))"
    if q: "Sprint os value = [] \<or> begins_with_dash (Sprint os value)"
  proof -
    from q have "Sprint os value = [] \<or> Sprint os value ! 0 = CHR ''-''"
      using begins_with_dash_nth by blast
    from arg_pair_absent [OF h(1,2) this] show ?thesis
      by (simp add: prepareExecution_args)
  qed
  from env present absent show ?thesis by blast
qed

theorem prepareExecution_exposes_parameter_witness:
  "map_of (snd (prepareExecution (sample_os TimedOut) kubekey
       [(''action'', VString ''create_cluster''), (''name'', VString ''demo''),
        (''flag'', VString ''-v'')])) ''SKILL_PARAM_name'' = Some ''demo'' \<and>
   (\<exists>pre post. fst (prepareExecution (sample_os TimedOut) kubekey
       [(''action'', VString ''create_cluster''), (''name'', VString ''demo''),
        (''flag'', VString ''-v'')]) = pre @ [''--name'', ''demo''] @ post) \<and>
   map_of (snd (prepareExecution (sample_os TimedOut) kubekey
       [(''action'', VString ''create_cluster''), (''name'', VString ''demo''),
        (''flag'', VString ''-v'')])) ''SKILL_PARAM_flag'' = Some ''-v'' \<and>
   ''--flag'' \<notin> set (fst (prepareExecution (sample_os TimedOut) kubekey
       [(''action'', VString ''create_cluster''), (''name'', VString ''demo''),
        (''flag'', VString ''-v'')]))"
proof -
  let ?ps = "[(''action'', VString ''create_cluster''), (''name'', VString ''demo''),
        (''flag'', VString ''-v'')]"
  have d: "distinct (map fst ?ps)" by simp
  have s1: "Sprint (sample_os TimedOut) (VString ''demo'') = ''demo''"
    and s2: "Sprint (sample_os TimedOut) (VString ''-v'') = ''-v''"
    by (simp_all add: sample_os_def sprint_scalar_def)
  have m1: "(''name'', VString ''demo'') \<in> set ?ps" and m2: "(''flag'', VString ''-v'') \<in> set ?ps"
    by simp_all
  have n1: "''name'' \<noteq> ''script''" "''name'' \<noteq> ''action''"
    and n2: "''flag'' \<noteq> ''script''" "''flag'' \<noteq> ''action''"
    by simp_all
  note a = prepareExecution_exposes_parameter [OF d m1 n1, of "sample_os TimedOut" kubekey, unfolded s1]
  note b = prepareExecution_exposes_parameter [OF d m2 n2, of "sample_os TimedOut" kubekey, unfolded s2]
  have q1: "''demo'' \<noteq> [] \<and> \<not> begins_with_dash ''demo''"
    and q2: "''-v'' = [] \<or> begins_with_dash ''-v''"
    by (simp_all add: begins_with_dash_def)
  from a [THEN conjunct1] a [THEN conjunct2, THEN conjunct1, rule_format, OF q1]
    b [THEN conjunct1] b [THEN conjunct2, THEN conjunct2, rule_format, OF q2]
  show ?thesis by simp
qed

text \<open>
  C8 as the specification words it fails for a parameter whose string form is empty: the empty string
  does not begin with \<open>-\<close>, it is exported as \<open>SKILL_PARAM_empty\<close>, and no argument is
  passed for it.
\<close>

theorem prepareExecution_empty_value_counterexample:
  "\<not> begins_with_dash (Sprint (sample_os TimedOut) (VString '''')) \<and>
   map_of (snd (prepareExecution (sample_os TimedOut) kubekey [(''empty'', VString '''')]))
     ''SKILL_PARAM_empty'' = Some '''' \<and>
   fst (prepareExecution (sample_os TimedOut) kubekey [(''empty'', VString '''')]) = []"
  by (simp add: begins_with_dash_def prepareExecution_def prepare_param_def sample_os_def
      sprint_scalar_def)

section \<open>Direct executor: failures\<close>

lemma Execute_success_iff_no_error:
  "Success (fst (Execute os e s params)) \<longleftrightarrow> snd (Execute os e s params) = None"
  by (auto simp: Execute_def Let_def split: sum.splits prod.splits option.splits)

text \<open>
  C2, as the code has it. When the script cannot be found (by \<open>findScript\<close>, or by \<open>Run\<close>
  when it is gone by then), when the timer fires before the script ends, and when the
  script exits with a non-zero code, \<open>Execute\<close> returns a result with \<open>Success = false\<close>,
  the exit code (\<open>-1\<close> unless the script exited), the duration and the error text, and it
  returns a non-nil error together with that result. The captured error stream is in the
  result when the script exited; on a timeout it is dropped. The returned error is nil
  exactly when the result reports success.
\<close>

theorem Execute_failures_return_result_and_error:
  "(findScript os s params = Inl m \<longrightarrow>
      Execute os e s params =
        (\<lparr>Success = False, Output = '''', Error = m, ExitCode = - 1,
          Duration = SinceStart os, Timestamp = Now os\<rparr>, Some m)) \<and>
   (findScript os s params = Inr p \<and> Stat os p = StatNotExist \<longrightarrow>
      Execute os e s params =
        (\<lparr>Success = False, Output = '''', Error = ''script not found: '' @ p @ '': '',
          ExitCode = - 1, Duration = SinceStart os, Timestamp = Now os\<rparr>,
         Some (''script not found: '' @ p))) \<and>
   (findScript os s params = Inr p \<and> Stat os p \<noteq> StatNotExist \<and> Chmod os p = None \<and>
    RunCommand os (''bash'' # p # fst (prepareExecution os s params)) (Dir os p)
      (Environ os @ map (\<lambda>(k, v). k @ ''='' @ v) (snd (prepareExecution os s params)))
      (timeout (runner e)) = TimedOut \<longrightarrow>
      Execute os e s params =
        (\<lparr>Success = False, Output = '''',
          Error = ''script execution timeout after '' @ DurationString os (timeout (runner e)) @ '': '',
          ExitCode = - 1, Duration = SinceStart os, Timestamp = Now os\<rparr>,
         Some (''script execution timeout after '' @ DurationString os (timeout (runner e))))) \<and>
   (findScript os s params = Inr p \<and> Stat os p \<noteq> StatNotExist \<and> Chmod os p = None \<and>
    RunCommand os (''bash'' # p # fst (prepareExecution os s params)) (Dir os p)
      (Environ os @ map (\<lambda>(k, v). k @ ''='' @ v) (snd (prepareExecution os s params)))
      (timeout (runner e)) = Exited out err code \<and> code \<noteq> 0 \<longrightarrow>
      Execute os e s params =
        (\<lparr>Success = False, Output = out, Error = err, ExitCode = code,
          Duration = SinceStart os, Timestamp = Now os\<rparr>,
         Some (''script exited with code '' @ Sprint_d code @ '': '' @ err))) \<and>
   (Success (fst (Execute os e s params)) \<longleftrightarrow> snd (Execute os e s params) = None)"
proof (intro conjI impI)
  show "Success (fst (Execute os e s params)) \<longleftrightarrow> snd (Execute os e s params) = None"
    by (rule Execute_success_iff_no_error)
qed (auto simp: Execute_def Run_def Let_def split: prod.splits)

lemma Sprint_d_3: "Sprint_d 3 = ''3''"
  by code_simp

lemma Sprint_d_30: "Sprint_d 30 = ''30''"
  by code_simp

theorem Execute_failures_return_result_and_error_witness:
  "Execute (sample_os TimedOut) (NewDirectExecutor 30) kubekey [(''script'', VString ''nope.sh'')] =
     (\<lparr>Success = False, Output = '''',
       Error = ''script not found: skills/kubekey/scripts/nope.sh'', ExitCode = - 1,
       Duration = 2, Timestamp = 1000\<rparr>,
      Some ''script not found: skills/kubekey/scripts/nope.sh'') \<and>
   Execute ((sample_os TimedOut)\<lparr>Stat := \<lambda>p. StatNotExist\<rparr>) (NewDirectExecutor 30) kubekey [] =
     (\<lparr>Success = False, Output = '''',
       Error = ''script not found: skills/kubekey/scripts/add_nodes.sh: '', ExitCode = - 1,
       Duration = 2, Timestamp = 1000\<rparr>,
      Some ''script not found: skills/kubekey/scripts/add_nodes.sh'') \<and>
   Execute (sample_os TimedOut) (NewDirectExecutor 30) kubekey
       [(''action'', VString ''create_cluster'')] =
     (\<lparr>Success = False, Output = '''', Error = ''script execution timeout after 30s: '',
       ExitCode = - 1, Duration = 2, Timestamp = 1000\<rparr>,
      Some ''script execution timeout after 30s'') \<and>
   Execute (sample_os (Exited ''out'' ''boom'' 3)) (NewDirectExecutor 30) kubekey
       [(''action'', VString ''create_cluster'')] =
     (\<lparr>Success = False, Output = ''out'', Error = ''boom'', ExitCode = 3,
       Duration = 2, Timestamp = 1000\<rparr>,
      Some ''script exited with code 3: boom'')"
proof -
  let ?e = "NewDirectExecutor 30"
  let ?gone = "(sample_os TimedOut)\<lparr>Stat := \<lambda>p. StatNotExist\<rparr>"
  let ?act = "[(''action'', VString ''create_cluster'')]"
  let ?p = "''skills/kubekey/scripts/create_cluster.sh''"
  have h1: "findScript (sample_os TimedOut) kubekey [(''script'', VString ''nope.sh'')]
      = Inl ''script not found: skills/kubekey/scripts/nope.sh''"
    by (simp add: findScript_def sample_os_def kubekey_def)
  have h2: "findScript ?gone kubekey [] = Inr ''skills/kubekey/scripts/add_nodes.sh'' \<and>
      Stat ?gone ''skills/kubekey/scripts/add_nodes.sh'' = StatNotExist"
    by (simp add: findScript_def findScript_action_def findScript_default_def is_script_def
        Ext_def sample_os_def kubekey_def)
  have f: "findScript (sample_os outcome) kubekey ?act = Inr ?p" for outcome
    by (simp add: findScript_def findScript_action_def sample_os_def kubekey_def)
  have st: "Stat (sample_os outcome) ?p \<noteq> StatNotExist" "Chmod (sample_os outcome) ?p = None"
    "RunCommand (sample_os outcome) argv dir env t = outcome" for outcome argv dir env t
    by (simp_all add: sample_os_def)
  have h3: "findScript (sample_os TimedOut) kubekey ?act = Inr ?p \<and>
      Stat (sample_os TimedOut) ?p \<noteq> StatNotExist \<and> Chmod (sample_os TimedOut) ?p = None \<and>
      RunCommand (sample_os TimedOut)
        (''bash'' # ?p # fst (prepareExecution (sample_os TimedOut) kubekey ?act))
        (Dir (sample_os TimedOut) ?p)
        (Environ (sample_os TimedOut) @
           map (\<lambda>(k, v). k @ ''='' @ v) (snd (prepareExecution (sample_os TimedOut) kubekey ?act)))
        (timeout (runner ?e)) = TimedOut"
    using f st by blast
  have h4: "findScript (sample_os (Exited ''out'' ''boom'' 3)) kubekey ?act = Inr ?p \<and>
      Stat (sample_os (Exited ''out'' ''boom'' 3)) ?p \<noteq> StatNotExist \<and>
      Chmod (sample_os (Exited ''out'' ''boom'' 3)) ?p = None \<and>
      RunCommand (sample_os (Exited ''out'' ''boom'' 3))
        (''bash'' # ?p # fst (prepareExecution (sample_os (Exited ''out'' ''boom'' 3)) kubekey ?act))
        (Dir (sample_os (Exited ''out'' ''boom'' 3)) ?p)
        (Environ (sample_os (Exited ''out'' ''boom'' 3)) @
           map (\<lambda>(k, v). k @ ''='' @ v)
             (snd (prepareExecution (sample_os (Exited ''out'' ''boom'' 3)) kubekey ?act)))
        (timeout (runner ?e)) = Exited ''out'' ''boom'' 3 \<and> (3::int) \<noteq> 0"
    using f st by simp
  have v: "SinceStart (sample_os outcome) = 2" "Now (sample_os outcome) = 1000"
    "DurationString (sample_os outcome) (timeout (runner ?e)) = ''30s''"
    "SinceStart ?gone = 2" "Now ?gone = 1000" for outcome
    by (simp_all add: sample_os_def NewDirectExecutor_def NewScriptRunner_def Sprint_d_30)
  note t = Execute_failures_return_result_and_error
  from t [THEN conjunct1, rule_format, OF h1]
    t [THEN conjunct2, THEN conjunct1, rule_format, OF h2]
    t [THEN conjunct2, THEN conjunct2, THEN conjunct1, rule_format, OF h3]
    t [THEN conjunct2, THEN conjunct2, THEN conjunct2, THEN conjunct1, rule_format, OF h4]
  show ?thesis
    by (simp add: v Sprint_d_3)
qed

lemma Execute_exit_code_3:
  "Execute (sample_os (Exited ''out'' ''boom'' 3)) (NewDirectExecutor 30) kubekey
       [(''action'', VString ''create_cluster'')] =
     (\<lparr>Success = False, Output = ''out'', Error = ''boom'', ExitCode = 3,
       Duration = 2, Timestamp = 1000\<rparr>,
      Some ''script exited with code 3: boom'')"
  by (simp add: Execute_def Run_def findScript_def findScript_action_def sample_os_def kubekey_def
      prepareExecution_def prepare_param_def NewDirectExecutor_def NewScriptRunner_def
      Sprint_d_3)

text \<open>
  C2 as the specification words it fails: a script that exits with code 3 makes \<open>Execute\<close> return a
  failed result and, with it, an error that is not nil.
\<close>

theorem Execute_returns_error_counterexample:
  "snd (Execute (sample_os (Exited ''out'' ''boom'' 3)) (NewDirectExecutor 30) kubekey
       [(''action'', VString ''create_cluster'')]) = Some ''script exited with code 3: boom'' \<and>
   \<not> Success (fst (Execute (sample_os (Exited ''out'' ''boom'' 3)) (NewDirectExecutor 30) kubekey
       [(''action'', VString ''create_cluster'')]))"
  by (simp add: Execute_exit_code_3)

section \<open>Skill URIs: parsing\<close>

lemma find_slash_first:
  "CHR ''/'' \<notin> set name \<Longrightarrow> find_slash (name @ CHR ''/'' # rest) i = i + length name"
  by (induction name arbitrary: i) auto

lemma find_slash_none:
  "CHR ''/'' \<notin> set path \<Longrightarrow> find_slash path i = 0"
  by (induction path arbitrary: i) auto

lemma parseSkillURI_split:
  assumes "CHR ''/'' \<notin> set name" "name \<noteq> []"
  shows "parseSkillURI (''skill://'' @ name @ CHR ''/'' # rest) = Some (name, rest)"
  using assms by (simp add: parseSkillURI_def find_slash_first Let_def)

lemma parseSkillURI_no_slash:
  assumes "CHR ''/'' \<notin> set name"
  shows "parseSkillURI (''skill://'' @ name) = Some (name, '''')"
  using assms by (simp add: parseSkillURI_def find_slash_none Let_def)

lemma parseSkillURI_leading_slash:
  "parseSkillURI (''skill://'' @ CHR ''/'' # rest) = Some (CHR ''/'' # rest, '''')"
  by (simp add: parseSkillURI_def Let_def)

lemma handleResourcesRead_parse_rejects:
  "take 8 uri \<noteq> ''skill://'' \<Longrightarrow> handleResourcesRead_parse uri = Inl (''invalid skill URI: '' @ uri)"
  by (simp add: handleResourcesRead_parse_def isSkillURI_def)

lemma handleResourcesRead_parse_example:
  "handleResourcesRead_parse ''skill://kubekey/script/create_cluster.sh''
     = Inr (Some (''kubekey'', ''script/create_cluster.sh''))"
  by (simp add: handleResourcesRead_parse_def isSkillURI_def parseSkillURI_def Let_def)

text \<open>
  What holds of the parsing: the example URI parses to \<open>kubekey\<close> and
  \<open>script/create_cluster.sh\<close>; a URI whose name part is not empty and holds no separator
  is split at the first separator, whatever follows it; and a URI that does not begin
  with \<open>skill://\<close> is refused.
\<close>

theorem skill_uri_parsing:
  "handleResourcesRead_parse ''skill://kubekey/script/create_cluster.sh''
     = Inr (Some (''kubekey'', ''script/create_cluster.sh'')) \<and>
   (name \<noteq> [] \<and> CHR ''/'' \<notin> set name \<longrightarrow>
      handleResourcesRead_parse (''skill://'' @ name @ CHR ''/'' # rest) = Inr (Some (name, rest))) \<and>
   (take 8 uri \<noteq> ''skill://'' \<longrightarrow>
      handleResourcesRead_parse uri = Inl (''invalid skill URI: '' @ uri))"
proof (intro conjI impI)
  show "handleResourcesRead_parse ''skill://kubekey/script/create_cluster.sh''
     = Inr (Some (''kubekey'', ''script/create_cluster.sh''))"
    by (rule handleResourcesRead_parse_example)
next
  assume a: "name \<noteq> [] \<and> CHR ''/'' \<notin> set name"
  then have "isSkillURI (''skill://'' @ name @ CHR ''/'' # rest)"
    by (simp add: isSkillURI_def)
  moreover from a have "parseSkillURI (''skill://'' @ name @ CHR ''/'' # rest) = Some (name, rest)"
    using parseSkillURI_split [of name rest] by blast
  ultimately show "handleResourcesRead_parse (''skill://'' @ name @ CHR ''/'' # rest)
      = Inr (Some (name, rest))"
    by (simp only: handleResourcesRead_parse_def not_True_eq_False if_False)
next
  assume "take 8 uri \<noteq> ''skill://''"
  then show "handleResourcesRead_parse uri = Inl (''invalid skill URI: '' @ uri)"
    by (rule handleResourcesRead_parse_rejects)
qed

theorem skill_uri_parsing_witness:
  "handleResourcesRead_parse ''skill://kubekey/config/a/b.yaml''
     = Inr (Some (''kubekey'', ''config/a/b.yaml'')) \<and>
   handleResourcesRead_parse ''file://kubekey/skill.md''
     = Inl ''invalid skill URI: file://kubekey/skill.md''"
proof -
  have h1: "''kubekey'' \<noteq> [] \<and> CHR ''/'' \<notin> set ''kubekey''"
    by simp
  have h2: "take 8 ''file://kubekey/skill.md'' \<noteq> ''skill://''"
    by simp
  note t = skill_uri_parsing [of "''kubekey''" "''config/a/b.yaml''" "''file://kubekey/skill.md''"]
  from t [THEN conjunct2, THEN conjunct1, rule_format, OF h1]
    t [THEN conjunct2, THEN conjunct2, rule_format, OF h2]
  show ?thesis by simp
qed

text \<open>
  C6. The separator that directly follows the prefix is not split on: \<open>idx\<close> stays 0, which
  the code reads as "no separator", so the whole remainder, separators included, is
  returned as the skill name and the resource path is empty. Splitting on the first
  separator would give the empty name and the path \<open>script/create_cluster.sh\<close>.
\<close>

theorem parseSkillURI_separator_after_prefix:
  "handleResourcesRead_parse ''skill:///script/create_cluster.sh''
     = Inr (Some (''/script/create_cluster.sh'', '''')) \<and>
   find_slash ''/script/create_cluster.sh'' 0 = 0"
  by (simp add: handleResourcesRead_parse_def isSkillURI_def parseSkillURI_def Let_def)

section \<open>Execution router: automatic mode\<close>

lemma determineExecutionMode_never_auto:
  "determineExecutionMode r skillName \<noteq> ExecutionModeAuto"
  by (simp add: determineExecutionMode_def ExecutionModeDirect_def ExecutionModeAuto_def
      split: option.splits)

lemma Router_Execute_direct:
  assumes "determineExecutionMode r skillName = ExecutionModeDirect"
  shows "Router_Execute w r skillName params =
     (case Get (registry r) skillName of
        Inl err \<Rightarrow> ((None, Some (''skill not found: '' @ skillName)), mcpClients r)
      | Inr skill \<Rightarrow> (executeDirect r skill params, mcpClients r))"
  using assms by (simp add: Router_Execute_def split: sum.splits)

text \<open>
  C3. When the configuration gives a skill the automatic mode, \<open>Router.Execute\<close> returns
  what it returns when the same configuration gives the skill the direct mode: the same
  result, the same error and the same client cache. The call is the lookup in the
  registry followed by \<open>executeDirect\<close>, whatever \<open>executeDirect\<close> returns, so no call of
  the protocol bridge is made; \<open>determineExecutionMode\<close> never answers automatic, which
  leaves the fallback branch of \<open>Execute\<close> without a way in.
\<close>

theorem Router_Execute_auto_is_direct:
  "config r = Some c \<Longrightarrow> GetSkillConfig c skillName = Some sc \<Longrightarrow>
   ExecutionMode sc = ExecutionModeAuto \<Longrightarrow>
   Router_Execute w r skillName params =
     Router_Execute w
       (r\<lparr>config := Some (c\<lparr>Skills := (Skills c)
            (skillName \<mapsto> sc\<lparr>ExecutionMode := ExecutionModeDirect\<rparr>)\<rparr>)\<rparr>)
       skillName params \<and>
   Router_Execute w r skillName params =
     (case Get (registry r) skillName of
        Inl err \<Rightarrow> ((None, Some (''skill not found: '' @ skillName)), mcpClients r)
      | Inr skill \<Rightarrow> (executeDirect r skill params, mcpClients r)) \<and>
   determineExecutionMode r skillName \<noteq> ExecutionModeAuto"
proof -
  assume h: "config r = Some c" "GetSkillConfig c skillName = Some sc"
    "ExecutionMode sc = ExecutionModeAuto"
  let ?r' = "r\<lparr>config := Some (c\<lparr>Skills := (Skills c)
            (skillName \<mapsto> sc\<lparr>ExecutionMode := ExecutionModeDirect\<rparr>)\<rparr>)\<rparr>"
  have m: "determineExecutionMode r skillName = ExecutionModeDirect"
    using h by (simp add: determineExecutionMode_def)
  have m': "determineExecutionMode ?r' skillName = ExecutionModeDirect"
    by (simp add: determineExecutionMode_def GetSkillConfig_def)
  have same: "executeDirect ?r' skill params = executeDirect r skill params" for skill
    by (simp add: executeDirect_def)
  show ?thesis
    unfolding Router_Execute_direct [OF m] Router_Execute_direct [OF m']
    using determineExecutionMode_never_auto [of r skillName]
    by (simp add: same split: sum.splits)
qed

theorem Router_Execute_auto_is_direct_witness:
  "Router_Execute sample_world (sample_router (Exited ''out'' ''boom'' 3) ExecutionModeAuto)
       ''kubekey'' [(''action'', VString ''create_cluster'')] =
     ((Some \<lparr>Success = False, Output = ''out'', Error = ''boom'', ExitCode = 3,
         Duration = 2, Timestamp = 1000\<rparr>,
       Some ''script exited with code 3: boom''), Map.empty) \<and>
   Router_Execute sample_world (sample_router (Exited ''out'' ''boom'' 3) ExecutionModeAuto)
       ''kubekey'' [(''action'', VString ''create_cluster'')] =
   Router_Execute sample_world (sample_router (Exited ''out'' ''boom'' 3) ExecutionModeDirect)
       ''kubekey'' [(''action'', VString ''create_cluster'')]"
proof -
  let ?r = "sample_router (Exited ''out'' ''boom'' 3) ExecutionModeAuto"
  let ?sc = "\<lparr>ConfigName = ''kubekey'', ExecutionMode = ExecutionModeAuto, MCPServer = ''kk''\<rparr>"
  have h1: "config ?r = Some (sample_config ExecutionModeAuto)"
    by (simp add: sample_router_def)
  have h2: "GetSkillConfig (sample_config ExecutionModeAuto) ''kubekey'' = Some ?sc"
    by (simp add: GetSkillConfig_def sample_config_def)
  have h3: "ExecutionMode ?sc = ExecutionModeAuto"
    by simp
  have r': "?r\<lparr>config := Some ((sample_config ExecutionModeAuto)\<lparr>Skills :=
        (Skills (sample_config ExecutionModeAuto))
          (''kubekey'' \<mapsto> ?sc\<lparr>ExecutionMode := ExecutionModeDirect\<rparr>)\<rparr>)\<rparr>
      = sample_router (Exited ''out'' ''boom'' 3) ExecutionModeDirect"
    by (simp add: sample_router_def sample_config_def)
  have g: "Get (registry ?r) ''kubekey'' = Inr kubekey"
    by (simp add: Get_def sample_router_def)
  have d: "executeDirect ?r kubekey [(''action'', VString ''create_cluster'')] =
      (Some \<lparr>Success = False, Output = ''out'', Error = ''boom'', ExitCode = 3,
         Duration = 2, Timestamp = 1000\<rparr>, Some ''script exited with code 3: boom'')"
    by (simp add: executeDirect_def sample_router_def DirectExecutor_as_Executor_def
        Execute_exit_code_3)
  have c: "mcpClients ?r = Map.empty"
    by (simp add: sample_router_def)
  note t = Router_Execute_auto_is_direct [OF h1 h2 h3, of sample_world
      "[(''action'', VString ''create_cluster'')]", unfolded r' g]
  from t [THEN conjunct1] t [THEN conjunct2, THEN conjunct1]
  show ?thesis
    by (simp add: d c)
qed

section \<open>Method dispatcher: error responses\<close>

lemma HandleRequest_method_not_found:
  assumes "Method req \<noteq> MethodInitialize" "handlers s (Method req) = None"
  shows "HandleRequest s req =
     Inr \<lparr>JSONRPC = ''2.0'', ID = RequestID req, Result = None,
          ResponseError = Some \<lparr>Code = - 32601,
            Message = ''Method not found: '' @ Method req, ErrorData = VNil\<rparr>\<rparr>"
  using assms
  by (simp add: HandleRequest_def NewJSONRPCResponse_def NewJSONRPCError_def
      ErrCodeMethodNotFound_def JSONRPCVersion_def)

lemma HandleRequest_handler_error:
  assumes "Method req \<noteq> MethodInitialize" "handlers s (Method req) = Some h"
    "snd (h (Params req)) = Some msg"
  shows "HandleRequest s req =
     Inr \<lparr>JSONRPC = ''2.0'', ID = RequestID req, Result = None,
          ResponseError = Some \<lparr>Code = - 32603, Message = msg, ErrorData = VNil\<rparr>\<rparr>"
  using assms
  by (cases "h (Params req)")
     (simp add: HandleRequest_def NewJSONRPCResponse_def NewJSONRPCError_def
      ErrCodeInternalError_def JSONRPCVersion_def)

lemma Serve_envelope_written:
  assumes "\<not> ctxDone r" "decode r = Envelope req" "encodeError r = None"
  shows "Serve s (r # rs) = (response_for s req # fst (Serve s rs), snd (Serve s rs))"
  using assms by (simp split: prod.splits)

text \<open>
  C7. A request whose method is not \<open>initialize\<close> and has no handler is answered with the
  error code -32601; a request whose handler returns an error is answered with the
  error code -32603 and the handler's message. \<open>HandleRequest\<close> returns these as responses,
  not as errors, and \<open>Serve\<close>, once it has written the response, goes on with the
  remaining rounds exactly as it would from there: what it writes and returns for the
  whole input is the response followed by what it writes and returns for the rest.
\<close>

theorem dispatcher_errors_are_responses:
  "(Method req \<noteq> MethodInitialize \<and> handlers s (Method req) = None \<longrightarrow>
      HandleRequest s req =
        Inr \<lparr>JSONRPC = ''2.0'', ID = RequestID req, Result = None,
             ResponseError = Some \<lparr>Code = - 32601,
               Message = ''Method not found: '' @ Method req, ErrorData = VNil\<rparr>\<rparr>) \<and>
   (Method req \<noteq> MethodInitialize \<and> handlers s (Method req) = Some h \<and>
    snd (h (Params req)) = Some msg \<longrightarrow>
      HandleRequest s req =
        Inr \<lparr>JSONRPC = ''2.0'', ID = RequestID req, Result = None,
             ResponseError = Some \<lparr>Code = - 32603, Message = msg, ErrorData = VNil\<rparr>\<rparr>) \<and>
   (Method req \<noteq> MethodInitialize \<and>
    (handlers s (Method req) = None \<or>
     handlers s (Method req) = Some h \<and> snd (h (Params req)) = Some msg) \<and>
    \<not> ctxDone r \<and> decode r = Envelope req \<and> encodeError r = None \<longrightarrow>
      HandleRequest s req = Inr (response_for s req) \<and>
      Serve s (r # rs) = (response_for s req # fst (Serve s rs), snd (Serve s rs)))"
proof (intro conjI impI)
  assume "Method req \<noteq> MethodInitialize \<and> handlers s (Method req) = None"
  then show "HandleRequest s req =
        Inr \<lparr>JSONRPC = ''2.0'', ID = RequestID req, Result = None,
             ResponseError = Some \<lparr>Code = - 32601,
               Message = ''Method not found: '' @ Method req, ErrorData = VNil\<rparr>\<rparr>"
    by (simp add: HandleRequest_method_not_found)
next
  assume "Method req \<noteq> MethodInitialize \<and> handlers s (Method req) = Some h \<and>
    snd (h (Params req)) = Some msg"
  then show "HandleRequest s req =
        Inr \<lparr>JSONRPC = ''2.0'', ID = RequestID req, Result = None,
             ResponseError = Some \<lparr>Code = - 32603, Message = msg, ErrorData = VNil\<rparr>\<rparr>"
    by (simp add: HandleRequest_handler_error)
next
  assume a: "Method req \<noteq> MethodInitialize \<and>
    (handlers s (Method req) = None \<or>
     handlers s (Method req) = Some h \<and> snd (h (Params req)) = Some msg) \<and>
    \<not> ctxDone r \<and> decode r = Envelope req \<and> encodeError r = None"
  then show "HandleRequest s req = Inr (response_for s req)"
    using HandleRequest_method_not_found [of req s] HandleRequest_handler_error [of req s h msg]
    by (auto simp: response_for_def)
  from a have "\<not> ctxDone r" "decode r = Envelope req" "encodeError r = None"
    by simp_all
  then show "Serve s (r # rs) = (response_for s req # fst (Serve s rs), snd (Serve s rs))"
    by (rule Serve_envelope_written)
qed

theorem dispatcher_errors_are_responses_witness:
  "HandleRequest sample_server (sample_request 1 ''prompts/list'') =
     Inr \<lparr>JSONRPC = ''2.0'', ID = IdFloat64 1, Result = None,
          ResponseError = Some \<lparr>Code = - 32601,
            Message = ''Method not found: prompts/list'', ErrorData = VNil\<rparr>\<rparr> \<and>
   HandleRequest sample_server (sample_request 2 ''tools/call'') =
     Inr \<lparr>JSONRPC = ''2.0'', ID = IdFloat64 2, Result = None,
          ResponseError = Some \<lparr>Code = - 32603,
            Message = ''skill not found: nope'', ErrorData = VNil\<rparr>\<rparr> \<and>
   Serve sample_server
     [\<lparr>ctxDone = False, decode = Envelope (sample_request 1 ''prompts/list''), encodeError = None\<rparr>,
      \<lparr>ctxDone = False, decode = Envelope (sample_request 2 ''tools/call''), encodeError = None\<rparr>,
      \<lparr>ctxDone = False, decode = Envelope (sample_request 3 ''tools/list''), encodeError = None\<rparr>] =
     ([\<lparr>JSONRPC = ''2.0'', ID = IdFloat64 1, Result = None,
        ResponseError = Some \<lparr>Code = - 32601,
          Message = ''Method not found: prompts/list'', ErrorData = VNil\<rparr>\<rparr>,
       \<lparr>JSONRPC = ''2.0'', ID = IdFloat64 2, Result = None,
        ResponseError = Some \<lparr>Code = - 32603,
          Message = ''skill not found: nope'', ErrorData = VNil\<rparr>\<rparr>,
       \<lparr>JSONRPC = ''2.0'', ID = IdFloat64 3, Result = Some ''[]'', ResponseError = None\<rparr>],
      None)"
proof -
  let ?q1 = "sample_request 1 ''prompts/list''"
  let ?q2 = "sample_request 2 ''tools/call''"
  let ?q3 = "sample_request 3 ''tools/list''"
  let ?r1 = "\<lparr>ctxDone = False, decode = Envelope ?q1, encodeError = None\<rparr>"
  let ?r2 = "\<lparr>ctxDone = False, decode = Envelope ?q2, encodeError = None\<rparr>"
  let ?r3 = "\<lparr>ctxDone = False, decode = Envelope ?q3, encodeError = None\<rparr>"
  let ?h = "\<lambda>params :: RawMessage option. (NilResult, Some ''skill not found: nope'')"
  have m1: "Method ?q1 \<noteq> MethodInitialize \<and> handlers sample_server (Method ?q1) = None"
    by (simp add: sample_request_def sample_server_def MethodInitialize_def)
  have m2: "Method ?q2 \<noteq> MethodInitialize \<and> handlers sample_server (Method ?q2) = Some ?h \<and>
      snd (?h (Params ?q2)) = Some ''skill not found: nope''"
    by (simp add: sample_request_def sample_server_def MethodInitialize_def)
  have s1: "Method ?q1 \<noteq> MethodInitialize \<and>
      (handlers sample_server (Method ?q1) = None \<or>
       handlers sample_server (Method ?q1) = Some ?h \<and>
       snd (?h (Params ?q1)) = Some ''skill not found: nope'') \<and>
      \<not> ctxDone ?r1 \<and> decode ?r1 = Envelope ?q1 \<and> encodeError ?r1 = None"
    using m1 by simp
  have s2: "Method ?q2 \<noteq> MethodInitialize \<and>
      (handlers sample_server (Method ?q2) = None \<or>
       handlers sample_server (Method ?q2) = Some ?h \<and>
       snd (?h (Params ?q2)) = Some ''skill not found: nope'') \<and>
      \<not> ctxDone ?r2 \<and> decode ?r2 = Envelope ?q2 \<and> encodeError ?r2 = None"
    using m2 by simp
  note t = dispatcher_errors_are_responses
  note a1 = t [THEN conjunct1, rule_format, OF m1]
  note a2 = t [THEN conjunct2, THEN conjunct1, rule_format, OF m2]
  note b1 = t [THEN conjunct2, THEN conjunct2, rule_format, OF s1, of "[?r2, ?r3]"]
  note b2 = t [THEN conjunct2, THEN conjunct2, rule_format, OF s2, of "[?r3]"]
  have i1: "RequestID ?q1 = IdFloat64 1" "Method ?q1 = ''prompts/list''"
    and i2: "RequestID ?q2 = IdFloat64 2"
    by (simp_all add: sample_request_def)
  have r1: "response_for sample_server ?q1 =
      \<lparr>JSONRPC = ''2.0'', ID = IdFloat64 1, Result = None,
        ResponseError = Some \<lparr>Code = - 32601,
          Message = ''Method not found: prompts/list'', ErrorData = VNil\<rparr>\<rparr>"
    using a1 b1 [THEN conjunct1] by (simp add: i1)
  have r2: "response_for sample_server ?q2 =
      \<lparr>JSONRPC = ''2.0'', ID = IdFloat64 2, Result = None,
        ResponseError = Some \<lparr>Code = - 32603,
          Message = ''skill not found: nope'', ErrorData = VNil\<rparr>\<rparr>"
    using a2 b2 [THEN conjunct1] by (simp add: i2)
  have r3: "Serve sample_server [?r3] =
      ([\<lparr>JSONRPC = ''2.0'', ID = IdFloat64 3, Result = Some ''[]'', ResponseError = None\<rparr>], None)"
    by (simp add: response_for_def HandleRequest_def sample_request_def sample_server_def
        MethodInitialize_def NewJSONRPCResponse_def JSONRPCVersion_def)
  have "Serve sample_server [?r1, ?r2, ?r3] =
      ([response_for sample_server ?q1, response_for sample_server ?q2,
        \<lparr>JSONRPC = ''2.0'', ID = IdFloat64 3, Result = Some ''[]'', ResponseError = None\<rparr>], None)"
    unfolding b1 [THEN conjunct2] b2 [THEN conjunct2] r3 by simp
  then show ?thesis
    using a1 a2 by (simp add: r1 r2 i1 i2)
qed

section \<open>Process transport: stopping twice\<close>

lemma stop_pipes_eq:
  "stop_pipes c = c\<lparr>cancelled := True, Stdin := close_after_wait (Stdin c),
     Stdout := close_after_wait (Stdout c)\<rparr>"
  by (cases "Stdin c"; cases "Stdout c")
     (simp_all add: stop_pipes_def Let_def Close_def close_after_wait_def split: pipe.splits)

lemma close_after_wait_not_open: "close_after_wait p \<noteq> Some Open"
  by (cases p) (simp_all add: close_after_wait_def)

lemma close_after_wait_idem: "p \<noteq> Some Open \<Longrightarrow> close_after_wait p = p"
  by (cases p) (auto simp: close_after_wait_def intro: pipe.exhaust)

lemma stop_pipes_stopped: "stopped c \<Longrightarrow> stop_pipes c = c"
  by (simp add: stop_pipes_eq stopped_def close_after_wait_idem)

lemma stop_process_stopped: "stopped c \<Longrightarrow> stop_process c = Some c"
  by (auto simp: stopped_def stop_process_def Kill_def Wait_def)

lemma wg_Wait_stopped: "stopped c \<Longrightarrow> wg_Wait c = Some c"
  by (cases "loop c") (simp_all add: stopped_def wg_Wait_def)

lemma Stop_stopped: "stopped c \<Longrightarrow> Stop c = Some (c, None)"
  by (simp add: Stop_def stop_pipes_stopped stop_process_stopped wg_Wait_stopped)

lemma stop_process_result:
  assumes "cancelled c" "Stdin c \<noteq> Some Open" "Stdout c \<noteq> Some Open"
  shows "\<exists>c'. stop_process c = Some c' \<and> cancelled c' \<and> Stdin c' \<noteq> Some Open \<and>
     Stdout c' \<noteq> Some Open \<and> (Cmd c' = None \<or> Cmd c' = Some NotStarted \<or> Cmd c' = Some Reaped) \<and>
     loop c' = loop c"
proof (cases "Cmd c")
  case None
  with assms show ?thesis by (simp add: stop_process_def)
next
  case (Some p)
  with assms show ?thesis
    by (cases p)
       (simp_all add: stop_process_def Kill_def Wait_def close_after_wait_not_open)
qed

lemma wg_Wait_result:
  assumes "cancelled c"
  shows "\<exists>c'. wg_Wait c = Some c' \<and> loop c' \<noteq> Looping \<and> cancelled c' = cancelled c \<and>
     Stdin c' = Stdin c \<and> Stdout c' = Stdout c \<and> Cmd c' = Cmd c"
  using assms by (cases "loop c") (simp_all add: wg_Wait_def)

lemma Stop_returns_stopped: "\<exists>c'. Stop c = Some (c', None) \<and> stopped c'"
proof -
  have p: "cancelled (stop_pipes c)" "Stdin (stop_pipes c) \<noteq> Some Open"
    "Stdout (stop_pipes c) \<noteq> Some Open"
    by (simp_all add: stop_pipes_eq close_after_wait_not_open)
  from stop_process_result [OF p] obtain c1 where c1: "stop_process (stop_pipes c) = Some c1"
    "cancelled c1" "Stdin c1 \<noteq> Some Open" "Stdout c1 \<noteq> Some Open"
    "Cmd c1 = None \<or> Cmd c1 = Some NotStarted \<or> Cmd c1 = Some Reaped"
    by blast
  from wg_Wait_result [OF c1(2)] obtain c2 where c2: "wg_Wait c1 = Some c2" "loop c2 \<noteq> Looping"
    "cancelled c2 = cancelled c1" "Stdin c2 = Stdin c1" "Stdout c2 = Stdout c1" "Cmd c2 = Cmd c1"
    by blast
  have "Stop c = Some (c2, None)"
    by (simp add: Stop_def c1(1) c2(1))
  moreover have "stopped c2"
    using c1 c2 by (simp add: stopped_def)
  ultimately show ?thesis by blast
qed

text \<open>
  C9. From every state of a connection, \<open>Stop\<close> returns with a nil error, and a second
  \<open>Stop\<close> returns with a nil error as well and leaves the connection exactly as the
  first call left it. For a connection that was started, that state is: context
  cancelled, both pipes closed, the process reaped, the read loop joined.
\<close>

theorem Stop_twice_is_Stop_once:
  "(\<exists>c'. Stop c = Some (c', None) \<and> Stop c' = Some (c', None)) \<and>
   Stop (fst (Start None NewStdioConnection)) =
     Some (\<lparr>cancelled = True, Stdin = Some Closed, Stdout = Some Closed, Cmd = Some Reaped,
            loop = Finished\<rparr>, None)"
proof
  show "\<exists>c'. Stop c = Some (c', None) \<and> Stop c' = Some (c', None)"
    using Stop_returns_stopped [of c] Stop_stopped by blast
  show "Stop (fst (Start None NewStdioConnection)) =
     Some (\<lparr>cancelled = True, Stdin = Some Closed, Stdout = Some Closed, Cmd = Some Reaped,
            loop = Finished\<rparr>, None)"
    by (simp add: Stop_def Start_def NewStdioConnection_def stop_pipes_eq close_after_wait_def
        stop_process_def Kill_def Wait_def wg_Wait_def)
qed

theorem Stop_twice_is_Stop_once_witness:
  "Stop (fst (Start None NewStdioConnection)) =
     Some (\<lparr>cancelled = True, Stdin = Some Closed, Stdout = Some Closed, Cmd = Some Reaped,
            loop = Finished\<rparr>, None) \<and>
   Stop \<lparr>cancelled = True, Stdin = Some Closed, Stdout = Some Closed, Cmd = Some Reaped,
         loop = Finished\<rparr> =
     Some (\<lparr>cancelled = True, Stdin = Some Closed, Stdout = Some Closed, Cmd = Some Reaped,
            loop = Finished\<rparr>, None)"
proof -
  note t = Stop_twice_is_Stop_once [of "fst (Start None NewStdioConnection)"]
  from t [THEN conjunct1] t [THEN conjunct2] show ?thesis
    by auto
qed

section \<open>Request correlator: responses\<close>

lemma run_snoc: "run c (es @ [e]) = step (run c es) e"
  by (simp add: run_def)

lemma run_Nil: "run c [] = c"
  by (simp add: run_def)

lemma decode_id_not_int64: "decode_id j \<noteq> IdInt64 i"
  by (cases j) simp_all

lemma read_loop_round_drops:
  assumes "\<forall>k t. requests c k = Some t \<longrightarrow> (\<exists>i. k = IdInt64 i)"
  shows "read_loop_round c w = c"
proof -
  have "requests c (ID (decode_response w)) = None"
  proof (cases "requests c (ID (decode_response w))")
    case None
    then show ?thesis .
  next
    case (Some t)
    with assms obtain i where "ID (decode_response w) = IdInt64 i" by blast
    then show ?thesis by (simp add: decode_response_def decode_id_not_int64)
  qed
  then show ?thesis by (simp add: read_loop_round_def Let_def)
qed

lemma never_delivered_step:
  assumes "never_delivered c"
  shows "never_delivered (step c e)"
proof (cases e)
  case (ResponseArrives w)
  then show ?thesis
    using assms read_loop_round_drops [of c w] by (simp add: step_def never_delivered_def)
next
  case (ReceiveResponse t)
  then show ?thesis
    using assms by (simp add: step_def never_delivered_def receive_response_def split: call_state.splits)
qed (use assms in \<open>auto simp: step_def never_delivered_def generate_id_def create_request_fails_def
      register_channel_def send_request_def send_request_fails_def context_done_def
      read_loop_ends_def split: call_state.splits if_splits\<close>)

lemma never_delivered_run: "never_delivered (run NewClient es)"
proof (induction es rule: rev_induct)
  case Nil
  show ?case by (simp add: run_Nil never_delivered_def NewClient_def)
next
  case (snoc e es)
  then show ?case by (simp add: run_snoc never_delivered_step)
qed

lemmas client_steps =
  run_def step_def generate_id_def create_request_fails_def register_channel_def
  send_request_def send_request_fails_def context_done_def receive_response_def
  read_loop_round_def read_loop_ends_def NewClient_def wrap64_def decode_response_def Let_def

lemma one_call_state:
  "calls (run NewClient one_call) 0 = Waiting 1"
  "requests (run NewClient one_call) (IdInt64 1) = Some 0"
  "sent (run NewClient one_call) = [IdInt64 1]"
  by (simp_all add: one_call_def client_steps)

text \<open>
  C1. The identifiers are distinct (see the invariant of the table below), but no
  response reaches its caller. \<open>Call\<close> stores the channel under an \<open>int64\<close> key; the read
  loop looks it up under the \<open>ID\<close> that \<open>Decode\<close> stored in a field of type \<open>interface{}\<close>,
  which for a JSON number is a \<open>float64\<close> and so never equal to an \<open>int64\<close> key. In every
  state the client reaches, a round of the read loop changes nothing whatever response
  arrives, every channel is empty, and no invocation has returned with a response.
\<close>

theorem read_loop_delivers_no_response:
  "read_loop_round (run NewClient es) w = run NewClient es \<and>
   channel (run NewClient es) t = None \<and>
   calls (run NewClient es) t \<noteq> Returned (Response r)"
  using never_delivered_run [of es] read_loop_round_drops [of "run NewClient es" w]
  unfolding never_delivered_def by blast

theorem read_loop_delivers_no_response_witness:
  "calls (run NewClient one_call) 0 = Waiting 1 \<and>
   requests (run NewClient one_call) (IdInt64 1) = Some 0 \<and>
   sent (run NewClient one_call) = [IdInt64 1] \<and>
   ID (decode_response reply_to_1) = IdFloat64 1 \<and>
   run NewClient (one_call @ [ResponseArrives reply_to_1]) = run NewClient one_call \<and>
   channel (run NewClient (one_call @ [ResponseArrives reply_to_1])) 0 = None \<and>
   calls (run NewClient (one_call @ [ResponseArrives reply_to_1, ReceiveResponse 0])) 0 = Waiting 1"
proof -
  note t = read_loop_delivers_no_response [of one_call reply_to_1 0]
  have a: "run NewClient (one_call @ [ResponseArrives reply_to_1]) = run NewClient one_call"
    using t [THEN conjunct1] by (simp add: run_snoc step_def)
  have b: "channel (run NewClient one_call) 0 = None"
    using t [THEN conjunct2, THEN conjunct1] .
  have "run NewClient (one_call @ [ResponseArrives reply_to_1, ReceiveResponse 0])
      = receive_response (run NewClient (one_call @ [ResponseArrives reply_to_1])) 0"
    by (simp add: run_def step_def)
  also have "\<dots> = run NewClient one_call"
    unfolding a by (simp add: receive_response_def b one_call_state)
  finally have c: "run NewClient (one_call @ [ResponseArrives reply_to_1, ReceiveResponse 0])
      = run NewClient one_call" .
  have d: "ID (decode_response reply_to_1) = IdFloat64 1"
    by (simp add: decode_response_def reply_to_1_def)
  show ?thesis
    unfolding a c using b d by (simp add: one_call_state)
qed

section \<open>Request correlator: the pending table\<close>

lemma wrap64_id: "- (2 ^ 63) \<le> n \<Longrightarrow> n < 2 ^ 63 \<Longrightarrow> wrap64 n = n"
  by (simp add: wrap64_def)

lemma pending_holds: "pending c t i \<Longrightarrow> holds_id c t i"
  by (auto simp: pending_def holds_id_def)

lemma generate_id_effect:
  assumes "calls c t0 = NotCalled" "wrap64 (nextID c + 1) = nextID c + 1"
  shows "holds_id (generate_id c t0) t i \<longleftrightarrow> (if t = t0 then i = nextID c else holds_id c t i)"
    and "pending (generate_id c t0) t i \<longleftrightarrow> pending c t i"
    and "requests (generate_id c t0) = requests c"
    and "nextID (generate_id c t0) = nextID c + 1"
  using assms by (auto simp: generate_id_def holds_id_def pending_def)

lemma generate_id_disabled:
  "calls c t0 \<noteq> NotCalled \<Longrightarrow> generate_id c t0 = c"
  by (cases "calls c t0") (simp_all add: generate_id_def)


lemma create_request_fails_effect:
  assumes "calls c t0 = HasID i0"
  shows "holds_id (create_request_fails c t0) t i \<longleftrightarrow> t \<noteq> t0 \<and> holds_id c t i"
    and "pending (create_request_fails c t0) t i \<longleftrightarrow> pending c t i"
    and "requests (create_request_fails c t0) = requests c"
    and "nextID (create_request_fails c t0) = nextID c"
  using assms by (auto simp: create_request_fails_def holds_id_def pending_def)

lemma create_request_fails_disabled:
  "\<forall>i. calls c t0 \<noteq> HasID i \<Longrightarrow> create_request_fails c t0 = c"
  by (cases "calls c t0") (simp_all add: create_request_fails_def)

lemma register_channel_effect:
  assumes "calls c t0 = HasID i0"
  shows "holds_id (register_channel c t0) t i \<longleftrightarrow> holds_id c t i"
    and "pending (register_channel c t0) t i \<longleftrightarrow> (if t = t0 then i = i0 else pending c t i)"
    and "requests (register_channel c t0) = (requests c)(IdInt64 i0 \<mapsto> t0)"
    and "nextID (register_channel c t0) = nextID c"
  using assms by (auto simp: register_channel_def holds_id_def pending_def)

lemma register_channel_disabled:
  "\<forall>i. calls c t0 \<noteq> HasID i \<Longrightarrow> register_channel c t0 = c"
  by (cases "calls c t0") (simp_all add: register_channel_def)

lemma send_request_effect:
  shows "holds_id (send_request c t0) t i \<longleftrightarrow> holds_id c t i"
    and "pending (send_request c t0) t i \<longleftrightarrow> pending c t i"
    and "requests (send_request c t0) = requests c"
    and "nextID (send_request c t0) = nextID c"
  by (auto simp: send_request_def holds_id_def pending_def split: call_state.splits)

lemma send_request_fails_effect:
  assumes "calls c t0 = Registered i0"
  shows "holds_id (send_request_fails c t0) t i \<longleftrightarrow> t \<noteq> t0 \<and> holds_id c t i"
    and "pending (send_request_fails c t0) t i \<longleftrightarrow> t \<noteq> t0 \<and> pending c t i"
    and "requests (send_request_fails c t0) = (requests c)(IdInt64 i0 := None)"
    and "nextID (send_request_fails c t0) = nextID c"
  using assms by (auto simp: send_request_fails_def holds_id_def pending_def)

lemma send_request_fails_disabled:
  "\<forall>i. calls c t0 \<noteq> Registered i \<Longrightarrow> send_request_fails c t0 = c"
  by (cases "calls c t0") (simp_all add: send_request_fails_def)

lemma context_done_effect:
  assumes "calls c t0 = Waiting i0"
  shows "holds_id (context_done c t0) t i \<longleftrightarrow> t \<noteq> t0 \<and> holds_id c t i"
    and "pending (context_done c t0) t i \<longleftrightarrow> t \<noteq> t0 \<and> pending c t i"
    and "requests (context_done c t0) = (requests c)(IdInt64 i0 := None)"
    and "nextID (context_done c t0) = nextID c"
  using assms by (auto simp: context_done_def holds_id_def pending_def)

lemma context_done_disabled:
  "\<forall>i. calls c t0 \<noteq> Waiting i \<Longrightarrow> context_done c t0 = c"
  by (cases "calls c t0") (simp_all add: context_done_def)

lemma receive_response_effect:
  assumes "calls c t0 = Waiting i0" "channel c t0 = Some resp"
  shows "holds_id (receive_response c t0) t i \<longleftrightarrow> t \<noteq> t0 \<and> holds_id c t i"
    and "pending (receive_response c t0) t i \<longleftrightarrow> t \<noteq> t0 \<and> pending c t i"
    and "requests (receive_response c t0) = (requests c)(IdInt64 i0 := None)"
    and "nextID (receive_response c t0) = nextID c"
  using assms by (auto simp: receive_response_def holds_id_def pending_def)

lemma receive_response_disabled:
  "(\<forall>i. calls c t0 \<noteq> Waiting i) \<or> channel c t0 = None \<Longrightarrow> receive_response c t0 = c"
  by (cases "calls c t0"; cases "channel c t0") (simp_all add: receive_response_def)

lemma read_loop_round_effect:
  shows "holds_id (read_loop_round c w) t i \<longleftrightarrow> holds_id c t i"
    and "pending (read_loop_round c w) t i \<longleftrightarrow> pending c t i"
    and "requests (read_loop_round c w) = requests c"
    and "nextID (read_loop_round c w) = nextID c"
  by (auto simp: read_loop_round_def holds_id_def pending_def Let_def split: option.splits)

lemma read_loop_ends_effect:
  shows "holds_id (read_loop_ends c) t i \<longleftrightarrow> holds_id c t i"
    and "pending (read_loop_ends c) t i \<longleftrightarrow> pending c t i"
    and "requests (read_loop_ends c) = requests c"
    and "nextID (read_loop_ends c) = nextID c"
  by (auto simp: read_loop_ends_def holds_id_def pending_def)


lemma inv_unchanged:
  assumes "table_inv c n"
    and "\<And>t i. holds_id c' t i \<longleftrightarrow> holds_id c t i"
    and "\<And>t i. pending c' t i \<longleftrightarrow> pending c t i"
    and "requests c' = requests c" "nextID c' = nextID c"
  shows "table_inv c' (Suc n)"
  using assms(1) unfolding table_inv_def id_range_def id_unique_def table_exact_def assms(2-)
  by simp

lemma inv_drop_unregistered:
  assumes "table_inv c n" "calls c t0 = HasID i0"
    and "\<And>t i. holds_id c' t i \<longleftrightarrow> t \<noteq> t0 \<and> holds_id c t i"
    and "\<And>t i. pending c' t i \<longleftrightarrow> pending c t i"
    and "requests c' = requests c" "nextID c' = nextID c"
  shows "table_inv c' (Suc n)"
proof -
  from assms(1) have b: "1 \<le> nextID c" "nextID c \<le> 1 + int n"
    and r: "id_range c" and u: "id_unique c" and x: "table_exact c"
    by (simp_all add: table_inv_def)
  have r': "id_range c'"
    using r unfolding id_range_def assms(3,6) by blast
  have u': "id_unique c'"
    using u unfolding id_unique_def assms(3) by blast
  have x': "table_exact c'"
    using x unfolding table_exact_def assms(4,5) .
  show ?thesis
    using b r' u' x' by (simp add: table_inv_def assms(6))
qed

lemma inv_drop_pending:
  assumes "table_inv c n" "pending c t0 i0"
    and "\<And>t i. holds_id c' t i \<longleftrightarrow> t \<noteq> t0 \<and> holds_id c t i"
    and "\<And>t i. pending c' t i \<longleftrightarrow> t \<noteq> t0 \<and> pending c t i"
    and "requests c' = (requests c)(IdInt64 i0 := None)" "nextID c' = nextID c"
  shows "table_inv c' (Suc n)"
proof -
  from assms(1) have b: "1 \<le> nextID c" "nextID c \<le> 1 + int n"
    and r: "id_range c" and u: "id_unique c" and x: "table_exact c"
    by (simp_all add: table_inv_def)
  have r': "id_range c'"
    using r unfolding id_range_def assms(3,6) by blast
  have u': "id_unique c'"
    using u unfolding id_unique_def assms(3) by blast
  have x': "table_exact c'"
    unfolding table_exact_def
  proof (intro allI)
    fix k t
    show "requests c' k = Some t \<longleftrightarrow> (\<exists>i. k = IdInt64 i \<and> pending c' t i)"
    proof (cases "k = IdInt64 i0")
      case True
      have "\<not> pending c' t i0"
      proof
        assume "pending c' t i0"
        then have "t \<noteq> t0" "pending c t i0" by (simp_all add: assms(4))
        with assms(2) u show False
          unfolding id_unique_def using pending_holds by blast
      qed
      with True show ?thesis by (simp add: assms(5))
    next
      case False
      have "(\<exists>i. k = IdInt64 i \<and> pending c' t i) \<longleftrightarrow> (\<exists>i. k = IdInt64 i \<and> pending c t i)"
      proof
        assume "\<exists>i. k = IdInt64 i \<and> pending c' t i"
        then show "\<exists>i. k = IdInt64 i \<and> pending c t i" by (auto simp: assms(4))
      next
        assume "\<exists>i. k = IdInt64 i \<and> pending c t i"
        then obtain i where i: "k = IdInt64 i" "pending c t i" by blast
        with False have "i \<noteq> i0" by auto
        have "t \<noteq> t0"
        proof
          assume "t = t0"
          with i(2) assms(2) have "i = i0"
            by (auto simp: pending_def)
          with \<open>i \<noteq> i0\<close> show False by simp
        qed
        with i show "\<exists>i. k = IdInt64 i \<and> pending c' t i" by (auto simp: assms(4))
      qed
      with False x show ?thesis
        by (simp add: assms(5) table_exact_def)
    qed
  qed
  show ?thesis
    using b r' u' x' by (simp add: table_inv_def assms(6))
qed

lemma inv_register:
  assumes "table_inv c n" "calls c t0 = HasID i0"
    and "\<And>t i. holds_id c' t i \<longleftrightarrow> holds_id c t i"
    and "\<And>t i. pending c' t i \<longleftrightarrow> (if t = t0 then i = i0 else pending c t i)"
    and "requests c' = (requests c)(IdInt64 i0 \<mapsto> t0)" "nextID c' = nextID c"
  shows "table_inv c' (Suc n)"
proof -
  from assms(1) have b: "1 \<le> nextID c" "nextID c \<le> 1 + int n"
    and r: "id_range c" and u: "id_unique c" and x: "table_exact c"
    by (simp_all add: table_inv_def)
  have h0: "holds_id c t0 i0"
    using assms(2) by (simp add: holds_id_def)
  have r': "id_range c'"
    using r unfolding id_range_def assms(3,6) by blast
  have u': "id_unique c'"
    using u unfolding id_unique_def assms(3) by blast
  have x': "table_exact c'"
    unfolding table_exact_def
  proof (intro allI)
    fix k t
    show "requests c' k = Some t \<longleftrightarrow> (\<exists>i. k = IdInt64 i \<and> pending c' t i)"
    proof (cases "k = IdInt64 i0")
      case True
      have "pending c' t i0 \<longleftrightarrow> t = t0"
      proof (cases "t = t0")
        case True
        then show ?thesis by (simp add: assms(4))
      next
        case False
        have "\<not> pending c t i0"
        proof
          assume "pending c t i0"
          then have "holds_id c t i0" by (rule pending_holds)
          with h0 u have "t = t0" unfolding id_unique_def by blast
          with False show False by simp
        qed
        with False show ?thesis by (simp add: assms(4))
      qed
      with True show ?thesis by (auto simp: assms(5))
    next
      case False
      have "(\<exists>i. k = IdInt64 i \<and> pending c' t i) \<longleftrightarrow> (\<exists>i. k = IdInt64 i \<and> pending c t i)"
      proof (cases "t = t0")
        case True
        have "\<not> pending c t0 i" for i
          using assms(2) by (simp add: pending_def)
        with True False show ?thesis by (auto simp: assms(4))
      next
        case False
        then show ?thesis by (simp add: assms(4))
      qed
      with False x show ?thesis
        by (simp add: assms(5) table_exact_def)
    qed
  qed
  show ?thesis
    using b r' u' x' by (simp add: table_inv_def assms(6))
qed

lemma inv_generate:
  assumes "table_inv c n" "calls c t0 = NotCalled"
    and "\<And>t i. holds_id c' t i \<longleftrightarrow> (if t = t0 then i = nextID c else holds_id c t i)"
    and "\<And>t i. pending c' t i \<longleftrightarrow> pending c t i"
    and "requests c' = requests c" "nextID c' = nextID c + 1"
  shows "table_inv c' (Suc n)"
proof -
  from assms(1) have b: "1 \<le> nextID c" "nextID c \<le> 1 + int n"
    and r: "id_range c" and u: "id_unique c" and x: "table_exact c"
    by (simp_all add: table_inv_def)
  have n0: "\<not> holds_id c t0 i" for i
    using assms(2) by (simp add: holds_id_def)
  have fresh: "\<not> holds_id c t (nextID c)" for t
    using r unfolding id_range_def by force
  have r': "id_range c'"
    unfolding id_range_def assms(3,6)
  proof (intro allI impI)
    fix t i
    assume a: "if t = t0 then i = nextID c else holds_id c t i"
    show "1 \<le> i \<and> i < nextID c + 1"
    proof (cases "t = t0")
      case True
      with a b show ?thesis by simp
    next
      case False
      with a have "holds_id c t i" by simp
      with r have "1 \<le> i \<and> i < nextID c" unfolding id_range_def by blast
      then show ?thesis by simp
    qed
  qed
  have u': "id_unique c'"
    unfolding id_unique_def assms(3)
  proof (intro allI impI)
    fix t t' i
    assume a: "(if t = t0 then i = nextID c else holds_id c t i) \<and>
       (if t' = t0 then i = nextID c else holds_id c t' i)"
    show "t = t'"
    proof (cases "t = t0"; cases "t' = t0")
      assume "t = t0" "t' = t0"
      then show ?thesis by simp
    next
      assume "t = t0" "t' \<noteq> t0"
      with a fresh [of t'] show ?thesis by auto
    next
      assume "t \<noteq> t0" "t' = t0"
      with a fresh [of t] show ?thesis by auto
    next
      assume "t \<noteq> t0" "t' \<noteq> t0"
      with a u show ?thesis unfolding id_unique_def by simp blast
    qed
  qed
  have x': "table_exact c'"
    using x unfolding table_exact_def assms(4,5) .
  show ?thesis
    using b r' u' x' by (simp add: table_inv_def assms(6))
qed


lemma table_inv_step:
  assumes "table_inv c n" "int n + 1 < 2 ^ 63 - 1"
  shows "table_inv (step c e) (Suc n)"
proof (cases e)
  case (GenerateID t0)
  show ?thesis
  proof (cases "calls c t0 = NotCalled")
    case True
    from assms have w: "wrap64 (nextID c + 1) = nextID c + 1"
      by (intro wrap64_id) (auto simp: table_inv_def)
    show ?thesis
      unfolding GenerateID step_def event.case
      by (rule inv_generate [OF assms(1) True]) (simp_all add: generate_id_effect [OF True w])
  next
    case False
    then show ?thesis
      using assms(1) by (simp add: GenerateID step_def generate_id_disabled inv_unchanged)
  qed
next
  case (CreateRequestFails t0)
  show ?thesis
  proof (cases "\<exists>i. calls c t0 = HasID i")
    case True
    then obtain i0 where i0: "calls c t0 = HasID i0" by blast
    show ?thesis
      unfolding CreateRequestFails step_def event.case
      by (rule inv_drop_unregistered [OF assms(1) i0])
         (simp_all add: create_request_fails_effect [OF i0])
  next
    case False
    then show ?thesis
      using assms(1)
      by (simp add: CreateRequestFails step_def create_request_fails_disabled inv_unchanged)
  qed
next
  case (RegisterChannel t0)
  show ?thesis
  proof (cases "\<exists>i. calls c t0 = HasID i")
    case True
    then obtain i0 where i0: "calls c t0 = HasID i0" by blast
    show ?thesis
      unfolding RegisterChannel step_def event.case
      by (rule inv_register [OF assms(1) i0]) (simp_all add: register_channel_effect [OF i0])
  next
    case False
    then show ?thesis
      using assms(1)
      by (simp add: RegisterChannel step_def register_channel_disabled inv_unchanged)
  qed
next
  case (SendRequest t0)
  show ?thesis
    unfolding SendRequest step_def event.case
    by (rule inv_unchanged [OF assms(1)]) (simp_all add: send_request_effect)
next
  case (SendRequestFails t0)
  show ?thesis
  proof (cases "\<exists>i. calls c t0 = Registered i")
    case True
    then obtain i0 where i0: "calls c t0 = Registered i0" by blast
    then have p: "pending c t0 i0" by (simp add: pending_def)
    show ?thesis
      unfolding SendRequestFails step_def event.case
      by (rule inv_drop_pending [OF assms(1) p]) (simp_all add: send_request_fails_effect [OF i0])
  next
    case False
    then show ?thesis
      using assms(1)
      by (simp add: SendRequestFails step_def send_request_fails_disabled inv_unchanged)
  qed
next
  case (ContextIsDone t0)
  show ?thesis
  proof (cases "\<exists>i. calls c t0 = Waiting i")
    case True
    then obtain i0 where i0: "calls c t0 = Waiting i0" by blast
    then have p: "pending c t0 i0" by (simp add: pending_def)
    show ?thesis
      unfolding ContextIsDone step_def event.case
      by (rule inv_drop_pending [OF assms(1) p]) (simp_all add: context_done_effect [OF i0])
  next
    case False
    then show ?thesis
      using assms(1)
      by (simp add: ContextIsDone step_def context_done_disabled inv_unchanged)
  qed
next
  case (ReceiveResponse t0)
  show ?thesis
  proof (cases "(\<exists>i. calls c t0 = Waiting i) \<and> channel c t0 \<noteq> None")
    case True
    then obtain i0 resp where i0: "calls c t0 = Waiting i0" and ch: "channel c t0 = Some resp"
      by auto
    then have p: "pending c t0 i0" by (simp add: pending_def)
    show ?thesis
      unfolding ReceiveResponse step_def event.case
      by (rule inv_drop_pending [OF assms(1) p])
         (simp_all add: receive_response_effect [OF i0 ch])
  next
    case False
    then have "receive_response c t0 = c"
      by (intro receive_response_disabled) auto
    then show ?thesis
      using assms(1) by (simp add: ReceiveResponse step_def inv_unchanged)
  qed
next
  case (ResponseArrives w)
  show ?thesis
    unfolding ResponseArrives step_def event.case
    by (rule inv_unchanged [OF assms(1)]) (simp_all add: read_loop_round_effect)
next
  case ReadLoopEnds
  show ?thesis
    unfolding ReadLoopEnds step_def event.case
    by (rule inv_unchanged [OF assms(1)]) (simp_all add: read_loop_ends_effect)
qed

lemma table_inv_NewClient: "table_inv NewClient 0"
  by (simp add: table_inv_def id_range_def id_unique_def table_exact_def holds_id_def pending_def
      NewClient_def)

lemma table_inv_run:
  "int (length es) < 2 ^ 63 - 1 \<Longrightarrow> table_inv (run NewClient es) (length es)"
proof (induction es rule: rev_induct)
  case Nil
  show ?case by (simp add: run_Nil table_inv_NewClient)
next
  case (snoc e es)
  have l: "int (length (es @ [e])) = int (length es) + 1"
    by simp
  from snoc.prems have b: "int (length es) + 1 < 2 ^ 63 - 1"
    unfolding l .
  then have "int (length es) < 2 ^ 63 - 1"
    by linarith
  then have "table_inv (run NewClient es) (length es)"
    by (rule snoc.IH)
  then have "table_inv (step (run NewClient es) e) (Suc (length es))"
    using b by (rule table_inv_step)
  then show ?case
    by (simp add: run_snoc)
qed

text \<open>
  The table and the call states. In every state the client reaches in fewer than
  \<open>2^63 - 1\<close> steps, so before the \<open>int64\<close> counter can wrap: an identifier is a key of the
  table exactly while its invocation has registered its channel and has not returned;
  no two invocations hold the same identifier; every identifier held is positive and
  below the counter; and the identifier the next invocation will get is held by none
  and is not in the table.
\<close>

theorem pending_table_invariant:
  "int (length es) < 2 ^ 63 - 1 \<Longrightarrow>
   (\<forall>k t. requests (run NewClient es) k = Some t \<longleftrightarrow>
      (\<exists>i. k = IdInt64 i \<and> pending (run NewClient es) t i)) \<and>
   (\<forall>t t' i. holds_id (run NewClient es) t i \<and> holds_id (run NewClient es) t' i \<longrightarrow> t = t') \<and>
   (\<forall>t i. holds_id (run NewClient es) t i \<longrightarrow> 1 \<le> i \<and> i < nextID (run NewClient es)) \<and>
   (\<forall>t. \<not> holds_id (run NewClient es) t (nextID (run NewClient es))) \<and>
   requests (run NewClient es) (IdInt64 (nextID (run NewClient es))) = None"
proof -
  assume "int (length es) < 2 ^ 63 - 1"
  then have inv: "table_inv (run NewClient es) (length es)"
    by (rule table_inv_run)
  let ?c = "run NewClient es"
  from inv have r: "id_range ?c" and u: "id_unique ?c" and x: "table_exact ?c"
    by (simp_all add: table_inv_def)
  have fresh: "\<not> holds_id ?c t (nextID ?c)" for t
    using r unfolding id_range_def by force
  have "requests ?c (IdInt64 (nextID ?c)) = None"
  proof (cases "requests ?c (IdInt64 (nextID ?c))")
    case (Some t)
    with x have "pending ?c t (nextID ?c)" unfolding table_exact_def by blast
    then have "holds_id ?c t (nextID ?c)" by (rule pending_holds)
    with fresh show ?thesis by blast
  qed simp
  with x u r fresh show ?thesis
    unfolding table_exact_def id_unique_def id_range_def by blast
qed


lemma three_calls_state:
  "calls (run NewClient three_calls) =
     (\<lambda>t. NotCalled)(0 := Returned ContextDone, 1 := Waiting 2, 2 := Returned SendFailed)"
  "nextID (run NewClient three_calls) = 4"
  by (simp_all add: three_calls_def client_steps fun_eq_iff)

theorem pending_table_invariant_witness:
  "requests (run NewClient three_calls) (IdInt64 1) = None \<and>
   requests (run NewClient three_calls) (IdInt64 2) = Some 1 \<and>
   requests (run NewClient three_calls) (IdInt64 3) = None \<and>
   requests (run NewClient three_calls) (IdInt64 4) = None \<and>
   calls (run NewClient three_calls) 0 = Returned ContextDone \<and>
   calls (run NewClient three_calls) 1 = Waiting 2 \<and>
   calls (run NewClient three_calls) 2 = Returned SendFailed \<and>
   nextID (run NewClient three_calls) = 4"
proof -
  let ?c = "run NewClient three_calls"
  have b: "int (length three_calls) < 2 ^ 63 - 1"
    by (simp add: three_calls_def)
  note t = pending_table_invariant [OF b]
  note table = t [THEN conjunct1, rule_format]
  have p: "pending ?c 1 2"
    by (simp add: pending_def three_calls_state)
  have np: "\<not> pending ?c u 1" "\<not> pending ?c u 3" for u
    by (simp_all add: pending_def three_calls_state)
  have k2: "requests ?c (IdInt64 2) = Some 1"
    using table [of "IdInt64 2" 1] p by simp
  have k1: "requests ?c (IdInt64 1) = None"
  proof (cases "requests ?c (IdInt64 1)")
    case (Some u)
    with table [of "IdInt64 1" u] np(1) [of u] show ?thesis by simp
  qed simp
  have k3: "requests ?c (IdInt64 3) = None"
  proof (cases "requests ?c (IdInt64 3)")
    case (Some u)
    with table [of "IdInt64 3" u] np(2) [of u] show ?thesis by simp
  qed simp
  have k4: "requests ?c (IdInt64 4) = None"
    using t [THEN conjunct2, THEN conjunct2, THEN conjunct2, THEN conjunct2]
    by (simp add: three_calls_state)
  show ?thesis
    using k1 k2 k3 k4 by (simp add: three_calls_state)
qed

lemma receive_response_never_enabled:
  "receive_response (run NewClient es) t = run NewClient es"
proof -
  have "channel (run NewClient es) t = None"
    using never_delivered_run [of es] by (simp add: never_delivered_def)
  then show ?thesis
    by (intro receive_response_disabled) simp
qed

lemma response_arrives_changes_nothing:
  "step (run NewClient es) (ResponseArrives w) = run NewClient es"
proof -
  have "\<forall>k t. requests (run NewClient es) k = Some t \<longrightarrow> (\<exists>i. k = IdInt64 i)"
    using never_delivered_run [of es] by (simp add: never_delivered_def)
  then show ?thesis
    by (simp add: step_def read_loop_round_drops)
qed

text \<open>
  C4. The entry of a request is not removed when its matching response arrives. The
  entry is there from the registration that precedes the send, and the identifiers
  pending at one time are distinct (the invariant above), but the arrival of a response
  leaves the table as it is, and the step in which the caller takes the response from
  its channel and deletes the entry is never enabled: in every state the client reaches,
  \<open>ReceiveResponse\<close> changes nothing. The entry stays until the context of the caller is
  done. This is the defect of C1 seen from the table: the read loop looks the channel
  up under a \<open>float64\<close> where \<open>Call\<close> stored it under an \<open>int64\<close>.
\<close>

theorem pending_entry_outlives_response:
  "requests (step (run NewClient es) (ResponseArrives w)) = requests (run NewClient es) \<and>
   step (run NewClient es) (ReceiveResponse t) = run NewClient es \<and>
   requests (run NewClient (es @ [ResponseArrives w, ReceiveResponse t])) = requests (run NewClient es)"
proof -
  have a: "step (run NewClient es) (ResponseArrives w) = run NewClient es"
    by (rule response_arrives_changes_nothing)
  have b: "step (run NewClient es) (ReceiveResponse t) = run NewClient es"
    by (simp add: step_def receive_response_never_enabled)
  have "run NewClient (es @ [ResponseArrives w, ReceiveResponse t])
      = step (step (run NewClient es) (ResponseArrives w)) (ReceiveResponse t)"
    by (simp add: run_def)
  then have c: "run NewClient (es @ [ResponseArrives w, ReceiveResponse t]) = run NewClient es"
    by (simp only: a b)
  show ?thesis
    by (simp only: a b c simp_thms)
qed

theorem pending_entry_outlives_response_witness:
  "ID (decode_response reply_to_1) = IdFloat64 1 \<and>
   requests (run NewClient one_call) (IdInt64 1) = Some 0 \<and>
   requests (run NewClient (one_call @ [ResponseArrives reply_to_1, ReceiveResponse 0]))
     (IdInt64 1) = Some 0 \<and>
   calls (step (run NewClient one_call) (ReceiveResponse 0)) 0 = Waiting 1 \<and>
   requests (step (run NewClient (one_call @ [ResponseArrives reply_to_1, ReceiveResponse 0]))
     (ContextIsDone 0)) (IdInt64 1) = None"
proof -
  note t = pending_entry_outlives_response [of one_call reply_to_1 0]
  have "run NewClient (one_call @ [ResponseArrives reply_to_1, ReceiveResponse 0])
      = step (step (run NewClient one_call) (ResponseArrives reply_to_1)) (ReceiveResponse 0)"
    by (simp add: run_def)
  also have "\<dots> = step (run NewClient one_call) (ReceiveResponse 0)"
    by (simp only: response_arrives_changes_nothing)
  also have "\<dots> = run NewClient one_call"
    by (rule t [THEN conjunct2, THEN conjunct1])
  finally have r: "run NewClient (one_call @ [ResponseArrives reply_to_1, ReceiveResponse 0])
      = run NewClient one_call" .
  have d: "ID (decode_response reply_to_1) = IdFloat64 1"
    by (simp add: decode_response_def reply_to_1_def)
  have e: "requests (step (run NewClient one_call) (ContextIsDone 0)) (IdInt64 1) = None"
    by (simp add: step_def context_done_def one_call_state)
  from t [THEN conjunct2, THEN conjunct2] t [THEN conjunct2, THEN conjunct1]
  show ?thesis
    unfolding r using d e by (simp add: one_call_state)
qed

end
